theory Spec2Isabelle
  imports Complex_Main "HOL-Library.Word"
begin

section \<open>Shared Python primitives\<close>

text \<open>
  Exceptions of the Python runtime and of the standard library that the modelled
  functions can raise. A function that can raise returns \<open>py_error + 'a\<close>.
\<close>

datatype py_error =
  StatisticsError | KeyError | ValueError | TypeError | ZeroDivisionError | InvalidStateError

text \<open>
  \<^verbatim>\<open>collections.deque(maxlen=n).append(x)\<close>: the element is appended on the right and,
  when the length then exceeds \<open>maxlen\<close>, one element is removed on the left.
\<close>

definition deque_append :: "nat \<Rightarrow> 'a list \<Rightarrow> 'a \<Rightarrow> 'a list" where
  "deque_append maxlen d x =
     (let d' = d @ [x] in if length d' > maxlen then tl d' else d')"

text \<open>
  Floating-point results. Samples, times and audio values are Python floats or numpy
  float32 values; the model takes them as the real numbers they denote. Where the code
  computes a result that has to be rounded, the rounded result is a parameter of the
  model, so that nothing below depends on how the rounding falls:
  \<^item> \<open>nearest_double v\<close> is the double that the conversion of the exact value \<open>v\<close> yields
    (the result of \<^verbatim>\<open>statistics.mean\<close> for the exact mean, of a float addition or
    multiplication for the exact sum or product);
  \<^item> \<open>stdev_result xs\<close> is the float \<^verbatim>\<open>statistics.stdev\<close> returns for the data \<open>xs\<close>;
  \<^item> \<open>float32_product x y\<close> is the float32 that numpy returns for the product of an array
    element \<open>x\<close> and a Python scalar \<open>y\<close>;
  \<^item> \<open>int16_out_of_range v\<close> is what \<^verbatim>\<open>astype(np.int16)\<close> yields for a value whose truncation
    does not fit 32 bits, which depends on the platform.
  Infinities and NaN are not modelled.
\<close>

record float_env =
  nearest_double :: "real \<Rightarrow> real"
  stdev_result :: "real list \<Rightarrow> real"
  float32_product :: "real \<Rightarrow> real \<Rightarrow> real"
  int16_out_of_range :: "real \<Rightarrow> 16 word"

text \<open>
  The environment in which every result is the exact one. It agrees with the program
  wherever the exact results are representable, as they are at the concrete inputs
  evaluated below.
\<close>

definition exact_fp :: float_env where
  "exact_fp =
     \<lparr> nearest_double = (\<lambda>v. v),
       stdev_result =
         (\<lambda>xs. sqrt (sum_list (map (\<lambda>x. (x - sum_list xs / real (length xs))\<^sup>2) xs)
                      / real (length xs - 1))),
       float32_product = (\<lambda>x y. x * y),
       int16_out_of_range = (\<lambda>v. 0) \<rparr>"

text \<open>Float addition and multiplication on doubles.\<close>

definition float_add :: "float_env \<Rightarrow> real \<Rightarrow> real \<Rightarrow> real" where
  "float_add fp a b = nearest_double fp (a + b)"

definition float_mul :: "float_env \<Rightarrow> real \<Rightarrow> real \<Rightarrow> real" where
  "float_mul fp a b = nearest_double fp (a * b)"

text \<open>
  \<^verbatim>\<open>statistics.mean\<close> computes the mean with exact fractions and converts it to a float;
  \<open>mean_value\<close> is what it returns on data that is not empty. It raises on no data,
  \<^verbatim>\<open>statistics.stdev\<close> (the sample standard deviation) on fewer than two data points.
\<close>

definition mean_value :: "float_env \<Rightarrow> real list \<Rightarrow> real" where
  "mean_value fp xs = nearest_double fp (sum_list xs / real (length xs))"

definition mean :: "float_env \<Rightarrow> real list \<Rightarrow> py_error + real" where
  "mean fp xs = (if xs = [] then Inl StatisticsError else Inr (mean_value fp xs))"

definition stdev :: "float_env \<Rightarrow> real list \<Rightarrow> py_error + real" where
  "stdev fp xs = (if length xs < 2 then Inl StatisticsError else Inr (stdev_result fp xs))"

text \<open>Python's \<^verbatim>\<open>int(x)\<close> on a float: truncation towards zero.\<close>

definition py_int :: "real \<Rightarrow> int" where
  "py_int x = (if x \<ge> 0 then \<lfloor>x\<rfloor> else \<lceil>x\<rceil>)"

section \<open>network_optimizer.py: JitterBuffer\<close>

record JitterBuffer =
  min_delay :: int
  max_delay :: int
  target_delay :: int
  current_delay :: int
  arrival_times :: "real list"
  jitter_history :: "real list"

definition JitterBuffer_init :: "int \<Rightarrow> int \<Rightarrow> int \<Rightarrow> JitterBuffer" where
  "JitterBuffer_init mn mx tgt =
     \<lparr> min_delay = mn, max_delay = mx, target_delay = tgt, current_delay = tgt,
       arrival_times = [], jitter_history = [] \<rparr>"

text \<open>The defaults of the constructor: \<^verbatim>\<open>min_delay=20, max_delay=200, target_delay=50\<close>.\<close>

definition JitterBuffer_default :: JitterBuffer where
  "JitterBuffer_default = JitterBuffer_init 20 200 50"

text \<open>
  \<open>add_packet\<close> ignores its \<^verbatim>\<open>timestamp\<close> argument and records the wall clock
  \<^verbatim>\<open>time.time() * 1000\<close>, here the parameter \<open>now\<close>. After the append the deque holds
  at least one element; with two or more the difference of the last two is recorded.
\<close>

definition add_packet :: "real \<Rightarrow> JitterBuffer \<Rightarrow> JitterBuffer" where
  "add_packet now jb =
     (let ats = deque_append 100 (arrival_times jb) now;
          jb1 = jb\<lparr>arrival_times := ats\<rparr>
      in if length ats \<ge> 2
         then jb1\<lparr>jitter_history :=
                deque_append 50 (jitter_history jb1) (last ats - last (butlast ats))\<rparr>
         else jb1)"

definition calculate_optimal_delay ::
  "float_env \<Rightarrow> JitterBuffer \<Rightarrow> py_error + (int \<times> JitterBuffer)" where
  "calculate_optimal_delay fp jb =
     (if length (jitter_history jb) < 5 then Inr (target_delay jb, jb)
      else case stdev fp (jitter_history jb) of
        Inl e \<Rightarrow> Inl e
      | Inr jitter \<Rightarrow>
         (case mean fp (jitter_history jb) of
            Inl e \<Rightarrow> Inl e
          | Inr mean_delay \<Rightarrow>
             (let optimal = py_int (float_add fp mean_delay (float_mul fp 2 jitter));
                  jb' = jb\<lparr>current_delay := max (min_delay jb) (min (max_delay jb) optimal)\<rparr>
              in Inr (current_delay jb', jb'))))"

section \<open>network_optimizer.py: AdaptiveBitrate\<close>

record AdaptiveBitrate =
  current_preset :: string
  latency_history :: "real list"
  bandwidth_history :: "real list"
  last_adjustment :: real
  adjustment_cooldown :: real

text \<open>The constructor reads the clock once (\<open>now\<close>, in seconds).\<close>

definition AdaptiveBitrate_init :: "real \<Rightarrow> AdaptiveBitrate" where
  "AdaptiveBitrate_init now =
     \<lparr> current_preset = ''1080p'', latency_history = [], bandwidth_history = [],
       last_adjustment = now, adjustment_cooldown = 3 \<rparr>"

definition update_metrics :: "real \<Rightarrow> real \<Rightarrow> AdaptiveBitrate \<Rightarrow> AdaptiveBitrate" where
  "update_metrics latency bandwidth s =
     s\<lparr> latency_history := deque_append 30 (latency_history s) latency,
        bandwidth_history := deque_append 20 (bandwidth_history s) bandwidth \<rparr>"

text \<open>The \<^verbatim>\<open>if/elif\<close> chain of \<open>calculate_quality\<close> that picks the target preset.\<close>

definition quality_target :: "real \<Rightarrow> real \<Rightarrow> string" where
  "quality_target avg_latency avg_bandwidth =
     (if avg_latency > 150 \<or> avg_bandwidth < 1000 then ''480p''
      else if avg_latency > 100 \<or> avg_bandwidth < 2000 then ''720p''
      else if avg_latency > 50 \<or> avg_bandwidth < 5000 then ''1080p''
      else if avg_latency > 20 \<or> avg_bandwidth < 10000 then ''1440p''
      else ''4k'')"

text \<open>
  \<open>calculate_quality\<close> reads the clock twice: \<open>t_check\<close> for the cooldown test and
  \<open>t_adjust\<close> when it records an adjustment. It returns the preset and the new state.
\<close>

definition calculate_quality ::
  "float_env \<Rightarrow> real \<Rightarrow> real \<Rightarrow> AdaptiveBitrate
   \<Rightarrow> py_error + (string \<times> AdaptiveBitrate)" where
  "calculate_quality fp t_check t_adjust s =
     (if length (latency_history s) < 3 then Inr (current_preset s, s)
      else if t_check - last_adjustment s < adjustment_cooldown s then Inr (current_preset s, s)
      else case mean fp (latency_history s) of
        Inl e \<Rightarrow> Inl e
      | Inr avg_latency \<Rightarrow>
         (case (if bandwidth_history s \<noteq> [] then mean fp (bandwidth_history s) else Inr 5000) of
            Inl e \<Rightarrow> Inl e
          | Inr avg_bandwidth \<Rightarrow>
             (let target = quality_target avg_latency avg_bandwidth;
                  s' = (if target \<noteq> current_preset s
                        then s\<lparr>last_adjustment := t_adjust, current_preset := target\<rparr>
                        else s)
              in Inr (current_preset s', s'))))"

text \<open>
  The calls a client can make on one controller. A run applies them in order; a call
  that raises leaves the object as it was.
\<close>

datatype abr_call = UpdateMetrics real real | CalculateQuality real real

fun abr_step :: "float_env \<Rightarrow> AdaptiveBitrate \<Rightarrow> abr_call \<Rightarrow> AdaptiveBitrate" where
  "abr_step fp s (UpdateMetrics latency bandwidth) = update_metrics latency bandwidth s"
| "abr_step fp s (CalculateQuality t_check t_adjust) =
     (case calculate_quality fp t_check t_adjust s of Inl e \<Rightarrow> s | Inr (p, s') \<Rightarrow> s')"

definition abr_run :: "float_env \<Rightarrow> AdaptiveBitrate \<Rightarrow> abr_call list \<Rightarrow> AdaptiveBitrate" where
  "abr_run fp s calls = foldl (abr_step fp) s calls"

text \<open>
  The threshold table as the specification gives it: rows in priority order, each a
  latency bound, a bandwidth bound and a tier; the first row whose latency bound is
  exceeded or whose bandwidth bound is not reached wins, and no row means 4K.
\<close>

definition spec_tier_table :: "(real \<times> real \<times> string) list" where
  "spec_tier_table =
     [(150, 1000, ''480p''), (100, 2000, ''720p''), (50, 5000, ''1080p''), (20, 10000, ''1440p'')]"

fun spec_first_match :: "(real \<times> real \<times> string) list \<Rightarrow> real \<Rightarrow> real \<Rightarrow> string" where
  "spec_first_match [] latency bandwidth = ''4k''"
| "spec_first_match ((l, b, tier) # rows) latency bandwidth =
     (if latency > l \<or> bandwidth < b then tier else spec_first_match rows latency bandwidth)"

definition spec_tier :: "real \<Rightarrow> real \<Rightarrow> string" where
  "spec_tier latency bandwidth = spec_first_match spec_tier_table latency bandwidth"

text \<open>
  The tier changes of a run: for every call after which the current preset differs from
  the one before, the time the controller recorded for the adjustment.
\<close>

fun abr_changes :: "float_env \<Rightarrow> AdaptiveBitrate \<Rightarrow> abr_call list \<Rightarrow> real list" where
  "abr_changes fp s [] = []"
| "abr_changes fp s (c # cs) =
     (let s' = abr_step fp s c
      in (if current_preset s' \<noteq> current_preset s then [last_adjustment s'] else [])
         @ abr_changes fp s' cs)"

text \<open>
  The clock readings of a run never go back: starting from \<open>t\<close>, every tier-selection
  call reads a time not before the previous reading, and its second reading is not
  before its first.
\<close>

fun clock_ok :: "real \<Rightarrow> abr_call list \<Rightarrow> bool" where
  "clock_ok t [] = True"
| "clock_ok t (UpdateMetrics latency bandwidth # cs) = clock_ok t cs"
| "clock_ok t (CalculateQuality t_check t_adjust # cs) =
     (t \<le> t_check \<and> t_check \<le> t_adjust \<and> clock_ok t_adjust cs)"

text \<open>The samples a run has inserted, in insertion order.\<close>

fun inserted_latency :: "abr_call list \<Rightarrow> real list" where
  "inserted_latency [] = []"
| "inserted_latency (UpdateMetrics latency bandwidth # cs) = latency # inserted_latency cs"
| "inserted_latency (CalculateQuality t_check t_adjust # cs) = inserted_latency cs"

fun inserted_bandwidth :: "abr_call list \<Rightarrow> real list" where
  "inserted_bandwidth [] = []"
| "inserted_bandwidth (UpdateMetrics latency bandwidth # cs) = bandwidth # inserted_bandwidth cs"
| "inserted_bandwidth (CalculateQuality t_check t_adjust # cs) = inserted_bandwidth cs"

text \<open>
  Both windows are filled by the same call, so the bandwidth window is empty only when
  the latency window is.
\<close>

definition abr_inv :: "AdaptiveBitrate \<Rightarrow> bool" where
  "abr_inv s \<longleftrightarrow> (bandwidth_history s = [] \<longrightarrow> latency_history s = [])"

text \<open>A run of packet arrivals on a jitter buffer, given the clock reading of each.\<close>

definition jb_run :: "JitterBuffer \<Rightarrow> real list \<Rightarrow> JitterBuffer" where
  "jb_run jb ts = foldl (\<lambda>jb now. add_packet now jb) jb ts"

text \<open>The \<open>n\<close> newest elements of a sequence, in order, and the inter-arrival deltas.\<close>

definition newest :: "nat \<Rightarrow> 'a list \<Rightarrow> 'a list" where
  "newest n xs = drop (length xs - n) xs"

fun deltas :: "real list \<Rightarrow> real list" where
  "deltas (a # b # ts) = (b - a) # deltas (b # ts)"
| "deltas ts = []"

text \<open>A run used to exercise the cooldown: two tier changes, at 5 s and at 9 s.\<close>

definition cooldown_calls :: "abr_call list" where
  "cooldown_calls =
     [UpdateMetrics 200 500, UpdateMetrics 200 500, UpdateMetrics 200 500,
      CalculateQuality 5 5,
      UpdateMetrics 0 20000, UpdateMetrics 0 20000, UpdateMetrics 0 20000,
      CalculateQuality 6 6, CalculateQuality 9 9]"

section \<open>Formatting integers in f-strings\<close>

fun str_nat :: "nat \<Rightarrow> string" where
  "str_nat n = (if n < 10 then [''0123456789'' ! n]
                else str_nat (n div 10) @ [''0123456789'' ! (n mod 10)])"

declare str_nat.simps [simp del]

definition str_int :: "int \<Rightarrow> string" where
  "str_int i = (if i < 0 then CHR ''-'' # str_nat (nat (- i)) else str_nat (nat i))"

section \<open>stream_capture.py: ScreenCapture.select_monitor\<close>

text \<open>
  One entry of \<^verbatim>\<open>mss.mss().monitors\<close>: the bounding rectangle of a monitor. Entry 0 is
  the virtual desktop spanning all monitors. The list is what the operating system
  reports at the moment of the call, so it is a parameter of every function that
  refreshes it.
\<close>

record mss_monitor =
  mss_left :: int
  mss_top :: int
  mss_width :: int
  mss_height :: int

text \<open>One dict of \<^verbatim>\<open>_monitors_info\<close>.\<close>

record monitor_info =
  info_index :: nat
  info_left :: int
  info_top :: int
  info_width :: int
  info_height :: int
  info_is_all :: bool
  info_name :: string

text \<open>The dict \<^verbatim>\<open>self.monitor\<close>: the region that is captured.\<close>

record capture_region =
  region_left :: int
  region_top :: int
  region_width :: int
  region_height :: int

text \<open>
  The attributes \<^verbatim>\<open>monitor\<close>, \<^verbatim>\<open>width\<close> and \<^verbatim>\<open>height\<close> are created by the first successful
  \<open>select_monitor\<close>; before that they do not exist (\<open>None\<close>).
\<close>

record ScreenCapture =
  monitor_index :: int
  monitors_info :: "monitor_info list"
  monitor :: "capture_region option"
  capture_width :: "int option"
  capture_height :: "int option"

definition refresh_monitors :: "mss_monitor list \<Rightarrow> ScreenCapture \<Rightarrow> ScreenCapture" where
  "refresh_monitors sct_monitors sc =
     sc\<lparr>monitors_info :=
          map (\<lambda>(i, mon).
                 \<lparr> info_index = i, info_left = mss_left mon, info_top = mss_top mon,
                   info_width = mss_width mon, info_height = mss_height mon,
                   info_is_all = (i = 0),
                   info_name = (if i = 0 then ''All Monitors'' else ''Monitor '' @ str_nat i) \<rparr>)
              (enumerate 0 sct_monitors)\<rparr>"

text \<open>The returned status dict: \<^verbatim>\<open>status\<close> is \<^verbatim>\<open>"error"\<close> or \<^verbatim>\<open>"ok"\<close>.\<close>

datatype select_monitor_result =
    MonitorError (message: string)
  | MonitorOk (ok_monitor_index: int) (ok_name: string) (ok_width: int) (ok_height: int)

text \<open>The \<^verbatim>\<open>print\<close> of the selected monitor has no effect on the state and is left out.\<close>

definition select_monitor ::
  "mss_monitor list \<Rightarrow> int \<Rightarrow> ScreenCapture \<Rightarrow> select_monitor_result \<times> ScreenCapture" where
  "select_monitor sct_monitors idx sc =
     (let sc1 = refresh_monitors sct_monitors sc
      in if idx < 0 \<or> idx \<ge> int (length (monitors_info sc1))
         then (MonitorError (''Invalid monitor index: '' @ str_int idx), sc1)
         else let mon = monitors_info sc1 ! nat idx;
                  sc2 = sc1\<lparr> monitor_index := idx,
                             monitor := Some \<lparr> region_left = info_left mon,
                                               region_top = info_top mon,
                                               region_width = info_width mon,
                                               region_height = info_height mon \<rparr>,
                             capture_width := Some (info_width mon),
                             capture_height := Some (info_height mon) \<rparr>
              in (MonitorOk idx (info_name mon) (info_width mon) (info_height mon), sc2))"

text \<open>The bounding rectangle of an enumerated monitor, as a capture region.\<close>

definition bounding_rect :: "mss_monitor \<Rightarrow> capture_region" where
  "bounding_rect mon =
     \<lparr> region_left = mss_left mon, region_top = mss_top mon,
       region_width = mss_width mon, region_height = mss_height mon \<rparr>"

text \<open>A desktop with two monitors side by side, and a capture object on the first.\<close>

definition two_monitors :: "mss_monitor list" where
  "two_monitors =
     [\<lparr> mss_left = 0, mss_top = 0, mss_width = 3840, mss_height = 1080 \<rparr>,
      \<lparr> mss_left = 0, mss_top = 0, mss_width = 1920, mss_height = 1080 \<rparr>,
      \<lparr> mss_left = 1920, mss_top = 0, mss_width = 1920, mss_height = 1080 \<rparr>]"

definition capture_on_primary :: ScreenCapture where
  "capture_on_primary = snd (select_monitor two_monitors 1
      \<lparr> monitor_index = 1, monitors_info = [], monitor = None,
        capture_width = None, capture_height = None \<rparr>)"

section \<open>hw_encoder.py: HardwareEncoderManager\<close>

datatype EncoderType = SOFTWARE | NVENC | QUICKSYNC | AMF | VIDEOTOOLBOX

record EncoderInfo =
  encoder_type :: EncoderType
  name :: string
  codec :: string
  available :: bool
  description :: string

record HardwareEncoderManager =
  available_encoders :: "EncoderInfo list"
  selected_encoder :: "EncoderInfo option"
  ffmpeg_path :: "string option"

text \<open>
  What the host answers when the manager probes it: the path \<^verbatim>\<open>shutil.which("ffmpeg")\<close>
  finds, the lower-cased output of \<^verbatim>\<open>ffmpeg -encoders\<close> (\<open>None\<close> when that call raises),
  and for each encoder name the outcome of the smoke test run by \<open>_test_encoder\<close>:
  \<open>Some True\<close> when ffmpeg returns 0, \<open>Some False\<close> when it returns another code,
  \<open>None\<close> when the call raises.
\<close>

record host_probe =
  which_ffmpeg :: "string option"
  encoders_output :: "string option"
  smoke_test :: "string \<Rightarrow> bool option"

text \<open>Python's \<^verbatim>\<open>needle in haystack\<close> on strings.\<close>

fun str_contains :: "string \<Rightarrow> string \<Rightarrow> bool" where
  "str_contains [] needle = (needle = [])"
| "str_contains (c # cs) needle =
     (take (length needle) (c # cs) = needle \<or> str_contains cs needle)"

definition test_encoder :: "host_probe \<Rightarrow> string option \<Rightarrow> string \<Rightarrow> bool" where
  "test_encoder host path encoder_name =
     (case path of
        None \<Rightarrow> False
      | Some p \<Rightarrow> (case smoke_test host encoder_name of None \<Rightarrow> False | Some ok \<Rightarrow> ok))"

text \<open>
  The two loops of \<open>_select_best_encoder\<close>: the first encoder, in list order, of the
  first type in priority order that has an available encoder.
\<close>

definition priority :: "EncoderType list" where
  "priority = [NVENC, QUICKSYNC, AMF, VIDEOTOOLBOX, SOFTWARE]"

fun first_available :: "EncoderType list \<Rightarrow> EncoderInfo list \<Rightarrow> EncoderInfo option" where
  "first_available [] encoders = None"
| "first_available (t # ts) encoders =
     (case find (\<lambda>encoder. encoder_type encoder = t \<and> available encoder) encoders of
        Some encoder \<Rightarrow> Some encoder
      | None \<Rightarrow> first_available ts encoders)"

definition select_best_encoder :: "HardwareEncoderManager \<Rightarrow> HardwareEncoderManager" where
  "select_best_encoder m =
     (case first_available priority (available_encoders m) of
        Some encoder \<Rightarrow> m\<lparr>selected_encoder := Some encoder\<rparr>
      | None \<Rightarrow>
         (case find (\<lambda>encoder. encoder_type encoder = SOFTWARE) (available_encoders m) of
            Some encoder \<Rightarrow> m\<lparr>selected_encoder := Some encoder\<rparr>
          | None \<Rightarrow> m))"

definition software_encoder :: EncoderInfo where
  "software_encoder =
     \<lparr> encoder_type = SOFTWARE, name = ''libx264'', codec = ''h264'', available = True,
       description = ''Software H.264 encoder (CPU)'' \<rparr>"

text \<open>One \<^verbatim>\<open>if "..." in encoder_output: append(...)\<close> block of \<open>_detect_encoders\<close>.\<close>

definition probe_encoder ::
  "host_probe \<Rightarrow> string option \<Rightarrow> string \<Rightarrow> EncoderType \<Rightarrow> string \<Rightarrow> string \<Rightarrow> string
   \<Rightarrow> EncoderInfo list" where
  "probe_encoder host path encoder_output ty nm cdc descr =
     (if str_contains encoder_output nm
      then [\<lparr> encoder_type = ty, name = nm, codec = cdc,
              available = test_encoder host path nm, description = descr \<rparr>]
      else [])"

text \<open>
  \<open>_detect_encoders\<close>. Inside the \<^verbatim>\<open>try\<close> only the listing call can raise (the smoke test
  catches its own exceptions), and it does so before any hardware encoder is appended;
  the handler prints and the selection of the best encoder follows in either case.
\<close>

definition detect_encoders :: "host_probe \<Rightarrow> HardwareEncoderManager \<Rightarrow> HardwareEncoderManager" where
  "detect_encoders host m =
     (let m1 = m\<lparr>available_encoders := [software_encoder]\<rparr>;
          m2 = m1\<lparr>ffmpeg_path := which_ffmpeg host\<rparr>
      in case ffmpeg_path m2 of
           None \<Rightarrow> m2\<lparr>selected_encoder := Some (available_encoders m2 ! 0)\<rparr>
         | Some p \<Rightarrow>
            (let found =
               (case encoders_output host of
                  None \<Rightarrow> []
                | Some encoder_output \<Rightarrow>
                    probe_encoder host (ffmpeg_path m2) encoder_output NVENC
                      ''h264_nvenc'' ''h264'' ''NVIDIA NVENC H.264 encoder''
                  @ probe_encoder host (ffmpeg_path m2) encoder_output NVENC
                      ''hevc_nvenc'' ''hevc'' ''NVIDIA NVENC HEVC encoder''
                  @ probe_encoder host (ffmpeg_path m2) encoder_output QUICKSYNC
                      ''h264_qsv'' ''h264'' ''Intel QuickSync H.264 encoder''
                  @ probe_encoder host (ffmpeg_path m2) encoder_output AMF
                      ''h264_amf'' ''h264'' ''AMD AMF H.264 encoder''
                  @ probe_encoder host (ffmpeg_path m2) encoder_output VIDEOTOOLBOX
                      ''h264_videotoolbox'' ''h264'' ''Apple VideoToolbox H.264 encoder'')
             in select_best_encoder (m2\<lparr>available_encoders := available_encoders m2 @ found\<rparr>)))"

text \<open>The constructor: empty fields, then detection.\<close>

definition HardwareEncoderManager_init :: "host_probe \<Rightarrow> HardwareEncoderManager" where
  "HardwareEncoderManager_init host =
     detect_encoders host
       \<lparr> available_encoders = [], selected_encoder = None, ffmpeg_path = None \<rparr>"

text \<open>
  The status dict \<open>select_encoder\<close> returns: \<^verbatim>\<open>{"status": "ok", "encoder", "message"}\<close> or
  \<^verbatim>\<open>{"status": "error", "message"}\<close>. The error status is the way this module reports
  that the requested encoder is unavailable.
\<close>

datatype select_encoder_result =
    EncoderOk (ok_encoder: string) (ok_message: string)
  | EncoderError (error_message: string)

definition select_encoder ::
  "string \<Rightarrow> HardwareEncoderManager \<Rightarrow> select_encoder_result \<times> HardwareEncoderManager" where
  "select_encoder encoder_name m =
     (case find (\<lambda>encoder. name encoder = encoder_name \<and> available encoder)
             (available_encoders m) of
        Some encoder \<Rightarrow>
          (EncoderOk (name encoder) (''Selected encoder: '' @ description encoder),
           m\<lparr>selected_encoder := Some encoder\<rparr>)
      | None \<Rightarrow> (EncoderError (''Encoder not available: '' @ encoder_name), m))"

text \<open>A run of explicit selections on one manager.\<close>

definition select_all :: "HardwareEncoderManager \<Rightarrow> string list \<Rightarrow> HardwareEncoderManager" where
  "select_all m names = foldl (\<lambda>m encoder_name. snd (select_encoder encoder_name m)) m names"

text \<open>
  A host whose ffmpeg lists NVENC and QuickSync H.264 encoders; the NVENC one fails its
  smoke test.
\<close>

definition nvenc_broken_host :: host_probe where
  "nvenc_broken_host =
     \<lparr> which_ffmpeg = Some ''/usr/bin/ffmpeg'',
       encoders_output = Some '' v..... h264_nvenc  v..... h264_qsv '',
       smoke_test = (\<lambda>n. if n = ''h264_nvenc'' then Some False else Some True) \<rparr>"

text \<open>The selected encoder is one of the list and is marked available.\<close>

definition selection_ok :: "HardwareEncoderManager \<Rightarrow> bool" where
  "selection_ok m \<longleftrightarrow>
     (\<exists>e. selected_encoder m = Some e \<and> available e \<and> e \<in> set (available_encoders m))"

section \<open>audio_capture.py: AudioCaptureTrack\<close>

text \<open>
  A block of audio is a numpy array of shape \<open>(frames, channels)\<close>: a list of rows, one
  row per sample instant, one entry per channel. Captured samples are float32 values.
\<close>

type_synonym audio_block = "real list list"

text \<open>
  The product of a float32 array element and a Python scalar, computed by numpy in
  float32. A product with a zero factor is zero. Whole numbers up to \<open>2^24\<close> in
  magnitude are float32 values, and IEEE arithmetic returns an exact result that is
  representable as it is, so the product of two such numbers is exact when it is again
  such a number. Every other product is the rounded value numpy returns.
\<close>

definition whole32 :: "real \<Rightarrow> bool" where
  "whole32 v \<longleftrightarrow> v = real_of_int \<lfloor>v\<rfloor> \<and> \<bar>v\<bar> \<le> 16777216"

definition np_multiply :: "float_env \<Rightarrow> real \<Rightarrow> real \<Rightarrow> real" where
  "np_multiply fp x y =
     (if x = 0 \<or> y = 0 then 0
      else if whole32 x \<and> whole32 y \<and> whole32 (x * y) then x * y
      else float32_product fp x y)"

text \<open>
  \<^verbatim>\<open>.astype(np.int16)\<close> on a float32: the value is truncated towards zero and, when the
  truncated value fits 32 bits, its low 16 bits are kept, without saturation. For a
  value beyond 32 bits the result depends on the platform.
\<close>

definition astype_int16 :: "float_env \<Rightarrow> real \<Rightarrow> 16 word" where
  "astype_int16 fp v =
     (if - 2147483648 \<le> py_int v \<and> py_int v \<le> 2147483647
      then word_of_int (py_int v)
      else int16_out_of_range fp v)"

text \<open>
  The \<^verbatim>\<open>av.AudioFrame\<close> that \<open>recv\<close> builds: the constructor arguments, the sample rate, the
  presentation timestamp and the int16 array stored in the frame's plane. The class
  belongs to the PyAV library. Of its behaviour the model has the size check of
  \<^verbatim>\<open>planes[0].update\<close>: the plane of a packed 16-bit frame holds two bytes per sample and
  channel of the layout, and \<open>update\<close> raises \<open>ValueError\<close> when it is given another
  number of bytes.
\<close>

record AudioFrame =
  frame_format :: string
  frame_layout :: string
  frame_samples :: nat
  frame_sample_rate :: nat
  pts :: int
  plane :: "16 word list list"

definition layout_channels :: "string \<Rightarrow> nat" where
  "layout_channels layout = (if layout = ''stereo'' then 2 else 1)"

definition plane_size :: "string \<Rightarrow> nat \<Rightarrow> nat" where
  "plane_size layout samples = samples * layout_channels layout * 2"

text \<open>\<^verbatim>\<open>len(a.tobytes())\<close> for an int16 array.\<close>

definition nbytes :: "16 word list list \<Rightarrow> nat" where
  "nbytes a = 2 * sum_list (map length a)"

record AudioCaptureTrack =
  sample_rate :: nat
  channels :: nat
  timestamp :: int
  samples_per_frame :: nat
  audio_queue :: "audio_block list"
  running :: bool
  muted :: bool
  volume :: real

text \<open>
  The constructor. \<open>backend\<close> tells whether an audio backend could be imported; without
  one \<open>_start_capture\<close> returns at once and the capture thread never runs.
\<close>

definition AudioCaptureTrack_init :: "bool \<Rightarrow> nat \<Rightarrow> nat \<Rightarrow> AudioCaptureTrack" where
  "AudioCaptureTrack_init backend rate chans =
     \<lparr> sample_rate = rate, channels = chans, timestamp = 0, samples_per_frame = 960,
       audio_queue = [], running = backend, muted = False, volume = 1 \<rparr>"

definition set_muted :: "bool \<Rightarrow> AudioCaptureTrack \<Rightarrow> AudioCaptureTrack" where
  "set_muted m s = s\<lparr>muted := m\<rparr>"

definition set_volume :: "real \<Rightarrow> AudioCaptureTrack \<Rightarrow> AudioCaptureTrack" where
  "set_volume v s = s\<lparr>volume := max 0 (min 1 v)\<rparr>"

definition stop :: "AudioCaptureTrack \<Rightarrow> AudioCaptureTrack" where
  "stop s = s\<lparr>running := False\<rparr>"

text \<open>
  The capture thread hands over a block (the sounddevice callback, or one read of the
  PyAudio loop): it is queued unless the queue already holds 50 blocks.
\<close>

definition queue_block :: "audio_block \<Rightarrow> AudioCaptureTrack \<Rightarrow> AudioCaptureTrack" where
  "queue_block b s =
     (if \<not> length (audio_queue s) \<ge> 50 then s\<lparr>audio_queue := audio_queue s @ [b]\<rparr> else s)"

text \<open>\<^verbatim>\<open>np.zeros((rows, cols))\<close> and \<^verbatim>\<open>np.zeros_like\<close>.\<close>

definition np_zeros :: "nat \<Rightarrow> nat \<Rightarrow> audio_block" where
  "np_zeros rows cols = replicate rows (replicate cols 0)"

definition np_zeros_like :: "audio_block \<Rightarrow> audio_block" where
  "np_zeros_like a = map (map (\<lambda>x. 0)) a"

text \<open>
  The block the next pull works on: the head of the queue, or silence when the queue is
  empty (\<^verbatim>\<open>get_nowait\<close> raising \<^verbatim>\<open>queue.Empty\<close>).
\<close>

definition next_block :: "AudioCaptureTrack \<Rightarrow> audio_block" where
  "next_block s =
     (case audio_queue s of
        [] \<Rightarrow> np_zeros (samples_per_frame s) (channels s)
      | b # q \<Rightarrow> b)"

text \<open>Mute and volume, and the conversion to int16 (lines 162 to 168 of the module).\<close>

definition mute_volume :: "float_env \<Rightarrow> AudioCaptureTrack \<Rightarrow> audio_block \<Rightarrow> audio_block" where
  "mute_volume fp s audio_data =
     (if muted s then np_zeros_like audio_data
      else map (map (\<lambda>x. np_multiply fp x (volume s))) audio_data)"

definition to_int16 :: "float_env \<Rightarrow> audio_block \<Rightarrow> 16 word list list" where
  "to_int16 fp audio_data = map (map (\<lambda>x. astype_int16 fp (np_multiply fp x 32767))) audio_data"

text \<open>
  \<open>recv\<close> returns the frame, or the exception it raises, and the track after the pull.
  The block is taken from the queue and the timestamp is advanced before the two
  statements that can raise: the update of the plane, and the division
  \<^verbatim>\<open>self._samples_per_frame / self.sample_rate\<close> that computes the pacing delay.
\<close>

definition recv :: "float_env \<Rightarrow> AudioCaptureTrack \<Rightarrow> (py_error + AudioFrame) \<times> AudioCaptureTrack" where
  "recv fp s =
     (let audio_data = next_block s;
          s1 = s\<lparr>audio_queue := tl (audio_queue s)\<rparr>;
          audio_data = mute_volume fp s1 audio_data;
          audio_data = to_int16 fp audio_data;
          frame = \<lparr> frame_format = ''s16'',
                    frame_layout = (if channels s1 = 2 then ''stereo'' else ''mono''),
                    frame_samples = samples_per_frame s1,
                    frame_sample_rate = sample_rate s1,
                    pts = timestamp s1,
                    plane = audio_data \<rparr>;
          s2 = s1\<lparr>timestamp := timestamp s1 + int (samples_per_frame s1)\<rparr>
      in if nbytes audio_data \<noteq> plane_size (frame_layout frame) (frame_samples frame)
         then (Inl ValueError, s2)
         else if sample_rate s2 = 0 then (Inl ZeroDivisionError, s2)
         else (Inr frame, s2))"

text \<open>
  What can happen to one track, in any order: a pull, a block arriving from the capture
  thread, a failed read inside the PyAudio loop (printed, the loop goes on), a failure
  of the capture as a whole (the thread clears \<^verbatim>\<open>_running\<close> and ends), and the setters.
\<close>

datatype track_event =
    Recv
  | Captured audio_block
  | ReadError
  | CaptureError
  | SetMuted bool
  | SetVolume real
  | Stop

text \<open>One event: the frame it emits, if any, and the track after it.\<close>

fun track_step ::
  "float_env \<Rightarrow> AudioCaptureTrack \<Rightarrow> track_event \<Rightarrow> AudioFrame option \<times> AudioCaptureTrack" where
  "track_step fp s Recv =
     (case recv fp s of (Inl e, s') \<Rightarrow> (None, s') | (Inr frame, s') \<Rightarrow> (Some frame, s'))"
| "track_step fp s (Captured b) = (None, queue_block b s)"
| "track_step fp s ReadError = (None, s)"
| "track_step fp s CaptureError = (None, s\<lparr>running := False\<rparr>)"
| "track_step fp s (SetMuted m) = (None, set_muted m s)"
| "track_step fp s (SetVolume v) = (None, set_volume v s)"
| "track_step fp s Stop = (None, stop s)"

definition track_run :: "float_env \<Rightarrow> AudioCaptureTrack \<Rightarrow> track_event list \<Rightarrow> AudioCaptureTrack" where
  "track_run fp s evs = foldl (\<lambda>s e. snd (track_step fp s e)) s evs"

text \<open>The frames a run emits, in order.\<close>

fun emitted :: "float_env \<Rightarrow> AudioCaptureTrack \<Rightarrow> track_event list \<Rightarrow> AudioFrame list" where
  "emitted fp s [] = []"
| "emitted fp s (e # evs) =
     (case track_step fp s e of
        (None, s') \<Rightarrow> emitted fp s' evs
      | (Some frame, s') \<Rightarrow> frame # emitted fp s' evs)"

text \<open>A block of \<open>rows\<close> rows with \<open>cols\<close> entries each.\<close>

definition has_shape :: "nat \<Rightarrow> nat \<Rightarrow> 'a list list \<Rightarrow> bool" where
  "has_shape rows cols a \<longleftrightarrow> length a = rows \<and> (\<forall>row \<in> set a. length row = cols)"

text \<open>The blocks the capture thread hands over in a run.\<close>

fun captured_blocks :: "track_event list \<Rightarrow> audio_block list" where
  "captured_blocks [] = []"
| "captured_blocks (Captured b # evs) = b # captured_blocks evs"
| "captured_blocks (e # evs) = captured_blocks evs"

text \<open>
  Quantization as the specification words it: the scaled sample is converted to an
  integer and clamped to the range of the 16-bit sample format.
\<close>

definition spec_quantize :: "real \<Rightarrow> int" where
  "spec_quantize v = max (- 32768) (min 32767 (py_int v))"

definition spec_samples :: "float_env \<Rightarrow> AudioCaptureTrack \<Rightarrow> int list list" where
  "spec_samples fp s =
     (if muted s then map (map (\<lambda>x. 0)) (next_block s)
      else map (map (\<lambda>x. spec_quantize (np_multiply fp (np_multiply fp x (volume s)) 32767)))
             (next_block s))"

text \<open>A stereo track whose capture thread has queued one block of samples at twice full scale.\<close>

definition loud_track :: AudioCaptureTrack where
  "loud_track =
     track_run exact_fp (AudioCaptureTrack_init True 48000 2) [Captured (replicate 960 [2, 2])]"

text \<open>Every queued block has the shape the track expects.\<close>

definition all_shaped :: "AudioCaptureTrack \<Rightarrow> bool" where
  "all_shaped s \<longleftrightarrow>
     (\<forall>b \<in> set (audio_queue s). has_shape (samples_per_frame s) (channels s) b)"

text \<open>A run in which the second pull finds a block of one row only.\<close>

definition failing_pull_events :: "track_event list" where
  "failing_pull_events = [Recv, Captured [[1, 1]], ReadError, Recv, CaptureError, Recv]"

text \<open>
  A stereo track whose volume was set to 4 and whose capture thread has queued one block
  of samples at full scale.
\<close>

definition full_scale_track :: AudioCaptureTrack where
  "full_scale_track =
     track_run exact_fp (AudioCaptureTrack_init True 48000 2)
       [SetVolume 4, Captured (replicate 960 [1, - 1])]"

section \<open>webrtc_server.py: WebRTCManager.handle_answer\<close>

text \<open>
  The signaling states of a peer connection as the specification lists them, and the
  part of a connection object that signaling touches. Connections are Python objects:
  the manager's set holds them by identity, which the model keeps as \<open>object_id\<close>.
\<close>

datatype signaling_state = Stable | HaveLocalOffer | HaveRemoteOffer | Closed

record RTCSessionDescription =
  sdp_text :: string
  sdp_type :: string

record RTCPeerConnection =
  object_id :: nat
  signalingState :: signaling_state
  remoteDescription :: "RTCSessionDescription option"

text \<open>
  Modelled from the spec: \<^verbatim>\<open>RTCPeerConnection.setRemoteDescription\<close> of the aiortc library,
  which the sources import and do not contain. A remote answer is applied to a
  connection in have-local-offer and fails with \<open>InvalidStateError\<close> in every other state;
  a remote offer is accepted by a connection that has no pending offer. Description
  types other than offer and answer are outside the specification.
\<close>

definition setRemoteDescription ::
  "RTCPeerConnection \<Rightarrow> RTCSessionDescription \<Rightarrow> py_error + RTCPeerConnection" where
  "setRemoteDescription pc d =
     (if sdp_type d = ''answer'' then
        (if signalingState pc = HaveLocalOffer
         then Inr (pc\<lparr>signalingState := Stable, remoteDescription := Some d\<rparr>)
         else Inl InvalidStateError)
      else if sdp_type d = ''offer'' then
        (if signalingState pc = Stable
         then Inr (pc\<lparr>signalingState := HaveRemoteOffer, remoteDescription := Some d\<rparr>)
         else Inl InvalidStateError)
      else Inl ValueError)"

text \<open>
  The manager: the set of live connections, by identity, and the stream settings.
  \<open>audio\<close> is the flag \<^verbatim>\<open>AUDIO_AVAILABLE\<close> of the module.
\<close>

record WebRTCManager =
  peer_connections :: "nat set"
  fps :: nat
  max_width :: nat
  audio_enabled :: bool

definition WebRTCManager_init :: "bool \<Rightarrow> WebRTCManager" where
  "WebRTCManager_init audio =
     \<lparr> peer_connections = {}, fps = 15, max_width = 1280, audio_enabled = audio \<rparr>"

text \<open>
  \<open>handle_answer\<close>: it reads the two keys of the answer dict, builds the session
  description and hands it to the connection it was given. It reads and writes no
  field of the manager, so it makes no check that the connection is one of
  \<open>peer_connections\<close>. An exception of the connection propagates. The result is the
  exception or the connection after the call, and the manager.
\<close>

definition handle_answer ::
  "WebRTCManager \<Rightarrow> RTCPeerConnection \<Rightarrow> (string \<rightharpoonup> string)
   \<Rightarrow> (py_error + RTCPeerConnection) \<times> WebRTCManager" where
  "handle_answer m pc answer_sdp =
     (case answer_sdp ''sdp'' of
        None \<Rightarrow> (Inl KeyError, m)
      | Some s \<Rightarrow>
         (case answer_sdp ''type'' of
            None \<Rightarrow> (Inl KeyError, m)
          | Some t \<Rightarrow> (setRemoteDescription pc \<lparr> sdp_text = s, sdp_type = t \<rparr>, m)))"

section \<open>server.py: the endpoint that receives an answer\<close>

text \<open>
  The parsed body of a request to \<^verbatim>\<open>/webrtc/answer\<close>: what \<^verbatim>\<open>data.get("pc_id")\<close> and
  \<^verbatim>\<open>data.get("answer")\<close> return, \<open>None\<close> for a missing key.
\<close>

record answer_request =
  request_pc_id :: "string option"
  request_answer :: "(string \<rightharpoonup> string) option"

text \<open>
  The three dicts the endpoint returns: \<^verbatim>\<open>{"status": "connected"}\<close>,
  \<^verbatim>\<open>{"error": "Invalid pc_id"}\<close>, and \<^verbatim>\<open>{"error": str(e)}\<close> for an exception \<open>e\<close> it caught.
\<close>

datatype answer_response = StatusConnected | ErrorInvalidPcId | ErrorException py_error

text \<open>
  The server keeps \<^verbatim>\<open>active_pcs\<close>, the connections by the id it handed out, and the
  manager.
\<close>

record signaling_server =
  active_pcs :: "string \<rightharpoonup> RTCPeerConnection"
  webrtc_manager :: WebRTCManager

text \<open>
  \<open>receive_webrtc_answer\<close>. An id that is not a key of \<^verbatim>\<open>active_pcs\<close> is answered with the
  error dict before \<open>handle_answer\<close> is called; a missing answer makes \<open>handle_answer\<close>
  subscript \<open>None\<close>, a \<open>TypeError\<close>; every exception is caught and reported. A successful
  call has changed the connection object, which \<^verbatim>\<open>active_pcs\<close> still holds.
\<close>

definition receive_webrtc_answer ::
  "signaling_server \<Rightarrow> answer_request \<Rightarrow> answer_response \<times> signaling_server" where
  "receive_webrtc_answer srv data =
     (case request_pc_id data of
        None \<Rightarrow> (ErrorInvalidPcId, srv)
      | Some pc_id \<Rightarrow>
         (case active_pcs srv pc_id of
            None \<Rightarrow> (ErrorInvalidPcId, srv)
          | Some pc \<Rightarrow>
             (case request_answer data of
                None \<Rightarrow> (ErrorException TypeError, srv)
              | Some answer \<Rightarrow>
                 (case handle_answer (webrtc_manager srv) pc answer of
                    (Inl e, m) \<Rightarrow> (ErrorException e, srv)
                  | (Inr pc', m) \<Rightarrow>
                     (StatusConnected, srv\<lparr>active_pcs := (active_pcs srv)(pc_id \<mapsto> pc')\<rparr>)))))"

text \<open>
  A well-formed answer; a connection in have-local-offer that no manager has
  registered; a server that knows one closed connection.
\<close>

definition some_answer :: "string \<rightharpoonup> string" where
  "some_answer = [''sdp'' \<mapsto> ''v=0'', ''type'' \<mapsto> ''answer'']"

definition unregistered_connection :: RTCPeerConnection where
  "unregistered_connection =
     \<lparr> object_id = 7, signalingState = HaveLocalOffer, remoteDescription = None \<rparr>"

definition server_with_closed :: signaling_server where
  "server_with_closed =
     \<lparr> active_pcs = [''42'' \<mapsto> \<lparr> object_id = 42, signalingState = Closed,
                                   remoteDescription = None \<rparr>],
       webrtc_manager = WebRTCManager_init True \<rparr>"

section \<open>Network optimizer: auxiliary facts\<close>

lemma deque_append_neq_Nil: "0 < n \<Longrightarrow> deque_append n d x \<noteq> []"
  by (cases d) (auto simp: deque_append_def Let_def)

lemma quality_target_spec: "quality_target l b = spec_tier l b"
  by (simp add: quality_target_def spec_tier_def spec_tier_table_def)

lemma calculate_quality_few:
  "length (latency_history s) < 3 \<Longrightarrow> calculate_quality fp t1 t2 s = Inr (current_preset s, s)"
  by (simp add: calculate_quality_def)

lemma calculate_quality_cooldown:
  "t1 - last_adjustment s < adjustment_cooldown s \<Longrightarrow>
   calculate_quality fp t1 t2 s = Inr (current_preset s, s)"
  by (simp add: calculate_quality_def)

lemma calculate_quality_elapsed:
  assumes "3 \<le> length (latency_history s)"
    and "\<not> t1 - last_adjustment s < adjustment_cooldown s"
    and "bandwidth_history s \<noteq> []"
  shows "\<exists>s'. calculate_quality fp t1 t2 s =
           Inr (quality_target (mean_value fp (latency_history s)) (mean_value fp (bandwidth_history s)), s')"
proof -
  from assms(1) have "latency_history s \<noteq> []" by auto
  with assms show ?thesis
    by (simp add: calculate_quality_def mean_def Let_def)
qed

lemma calculate_quality_histories:
  "calculate_quality fp t1 t2 s = Inr (p, s') \<Longrightarrow>
   latency_history s' = latency_history s \<and> bandwidth_history s' = bandwidth_history s
   \<and> adjustment_cooldown s' = adjustment_cooldown s"
  by (auto simp: calculate_quality_def Let_def split: if_splits sum.splits)

lemma abr_step_inv: "abr_inv s \<Longrightarrow> abr_inv (abr_step fp s c)"
proof (cases c)
  case (UpdateMetrics l b)
  then show ?thesis
    by (simp add: abr_inv_def update_metrics_def deque_append_neq_Nil)
next
  case (CalculateQuality t1 t2)
  assume "abr_inv s"
  with CalculateQuality show ?thesis
    by (auto simp: abr_inv_def split: sum.splits dest: calculate_quality_histories)
qed

lemma abr_run_inv: "abr_inv s \<Longrightarrow> abr_inv (abr_run fp s calls)"
  unfolding abr_run_def by (induction calls arbitrary: s) (simp_all add: abr_step_inv)

lemma abr_init_inv: "abr_inv (AdaptiveBitrate_init t0)"
  by (simp add: abr_inv_def AdaptiveBitrate_init_def)

lemma calculate_quality_cases:
  assumes "calculate_quality fp t1 t2 s = Inr (p, s')"
  shows "s' = s \<and> p = current_preset s
       \<or> (s' = s\<lparr>last_adjustment := t2, current_preset := p\<rparr> \<and> p \<noteq> current_preset s
           \<and> \<not> t1 - last_adjustment s < adjustment_cooldown s)"
  using assms
  by (auto simp: calculate_quality_def Let_def split: if_splits sum.splits)

lemma abr_step_cases:
  "abr_step fp s c = s
   \<or> (\<exists>l b. c = UpdateMetrics l b \<and> abr_step fp s c = update_metrics l b s)
   \<or> (\<exists>t1 t2 p. c = CalculateQuality t1 t2 \<and> p \<noteq> current_preset s
         \<and> abr_step fp s c = s\<lparr>last_adjustment := t2, current_preset := p\<rparr>
         \<and> \<not> t1 - last_adjustment s < adjustment_cooldown s)"
proof (cases c)
  case (UpdateMetrics l b)
  then show ?thesis by simp
next
  case (CalculateQuality t1 t2)
  show ?thesis
  proof (cases "calculate_quality fp t1 t2 s")
    case (Inl e)
    with CalculateQuality show ?thesis by simp
  next
    case (Inr r)
    obtain p s' where r: "r = (p, s')" by (cases r)
    from calculate_quality_cases [OF Inr [unfolded r]] CalculateQuality Inr r
    show ?thesis by auto
  qed
qed

lemma abr_changes_separated:
  assumes "clock_ok t calls" and "last_adjustment s \<le> t" and "0 \<le> adjustment_cooldown s"
  shows "sorted_wrt (\<lambda>a b. a + adjustment_cooldown s \<le> b) (abr_changes fp s calls)
       \<and> (\<forall>c \<in> set (abr_changes fp s calls). last_adjustment s + adjustment_cooldown s \<le> c)"
  using assms
proof (induction calls arbitrary: s t)
  case Nil
  then show ?case by simp
next
  case (Cons c cs)
  show ?case
  proof (cases c)
    case (UpdateMetrics l b)
    then have "abr_step fp s c = update_metrics l b s" by simp
    with Cons.IH [where t = t and s = "update_metrics l b s"] Cons.prems UpdateMetrics
    show ?thesis by (simp add: update_metrics_def Let_def)
  next
    case (CalculateQuality t1 t2)
    with Cons.prems have clk: "t \<le> t1" "t1 \<le> t2" "clock_ok t2 cs" by simp_all
    from abr_step_cases [where s = s and c = c and fp = fp] CalculateQuality
    consider (same) "abr_step fp s c = s"
      | (change) p where "p \<noteq> current_preset s"
          "abr_step fp s c = s\<lparr>last_adjustment := t2, current_preset := p\<rparr>"
          "\<not> t1 - last_adjustment s < adjustment_cooldown s"
      by auto
    then show ?thesis
    proof cases
      case same
      from Cons.prems clk have "last_adjustment s \<le> t2" by simp
      from Cons.IH [OF clk(3) this Cons.prems(3)] same show ?thesis by simp
    next
      case change
      let ?s' = "s\<lparr>last_adjustment := t2, current_preset := p\<rparr>"
      have "sorted_wrt (\<lambda>a b. a + adjustment_cooldown ?s' \<le> b) (abr_changes fp ?s' cs)
          \<and> (\<forall>c \<in> set (abr_changes fp ?s' cs). last_adjustment ?s' + adjustment_cooldown ?s' \<le> c)"
        by (rule Cons.IH [OF clk(3)]) (use Cons.prems in simp_all)
      then have ih: "sorted_wrt (\<lambda>a b. a + adjustment_cooldown s \<le> b) (abr_changes fp ?s' cs)"
        "\<forall>c \<in> set (abr_changes fp ?s' cs). t2 + adjustment_cooldown s \<le> c"
        by simp_all
      from change(3) clk have "last_adjustment s + adjustment_cooldown s \<le> t2" by simp
      with ih change Cons.prems(3) show ?thesis
        by (auto simp: Let_def)
    qed
  qed
qed

lemma abr_changes_Update:
  "abr_changes fp s (UpdateMetrics l b # cs) = abr_changes fp (update_metrics l b s) cs"
  by (simp add: update_metrics_def)

lemma abr_changes_Calc:
  assumes "calculate_quality fp t1 t2 s = Inr (p, s')"
  shows "abr_changes fp s (CalculateQuality t1 t2 # cs) =
           (if p \<noteq> current_preset s then [t2] else []) @ abr_changes fp s' cs"
  using calculate_quality_cases [OF assms] assms by (auto simp: Let_def)

lemma length_newest: "length (newest n xs) = min n (length xs)"
  by (simp add: newest_def)

lemma deque_append_newest:
  assumes "0 < n"
  shows "deque_append n (newest n xs) x = newest n (xs @ [x])"
proof (cases "length xs < n")
  case True
  then show ?thesis by (simp add: deque_append_def newest_def)
next
  case False
  then have le: "n \<le> length xs" by simp
  then have len: "length (drop (length xs - n) xs) = n" by simp
  have "tl (drop (length xs - n) xs @ [x]) = drop (Suc (length xs - n)) (xs @ [x])"
    using le assms by (simp add: tl_drop drop_Suc)
  moreover have "Suc (length xs - n) = Suc (length xs) - n"
    using le by simp
  ultimately show ?thesis
    using len by (simp add: deque_append_def newest_def Let_def)
qed

lemma deque_append_evicts_oldest:
  "length d \<le> n \<Longrightarrow> 0 < n \<Longrightarrow>
   deque_append n d x = (if length d < n then d @ [x] else tl d @ [x])"
  by (cases d) (auto simp: deque_append_def Let_def)

lemma length_deque_append: "length d \<le> n \<Longrightarrow> 0 < n \<Longrightarrow> length (deque_append n d x) \<le> n"
  by (cases d) (auto simp: deque_append_def Let_def)

lemma deltas_snoc: "ts \<noteq> [] \<Longrightarrow> deltas (ts @ [t]) = deltas ts @ [t - last ts]"
  by (induction ts rule: deltas.induct) auto

lemma jb_run_snoc: "jb_run jb (ts @ [t]) = add_packet t (jb_run jb ts)"
  by (simp add: jb_run_def)

lemma abr_run_snoc: "abr_run fp s (cs @ [c]) = abr_step fp (abr_run fp s cs) c"
  by (simp add: abr_run_def)

lemma arrival_times_add_packet:
  "arrival_times (add_packet t jb) = deque_append 100 (arrival_times jb) t"
  by (simp add: add_packet_def Let_def)

lemma jitter_history_add_packet:
  "jitter_history (add_packet t jb) =
     (let ats = deque_append 100 (arrival_times jb) t
      in if 2 \<le> length ats
         then deque_append 50 (jitter_history jb) (last ats - last (butlast ats))
         else jitter_history jb)"
  by (simp add: add_packet_def Let_def)

lemma arrival_times_run:
  "arrival_times jb = [] \<Longrightarrow> arrival_times (jb_run jb ts) = newest 100 ts"
proof (induction ts rule: rev_induct)
  case Nil
  then show ?case by (simp add: jb_run_def newest_def)
next
  case (snoc t ts)
  then show ?case
    by (simp add: jb_run_snoc arrival_times_add_packet deque_append_newest)
qed

lemma last_butlast_newest:
  assumes "ts \<noteq> []" and "2 \<le> n"
  shows "last (butlast (newest n (ts @ [t]))) = last ts"
proof -
  have "butlast (drop (Suc (length ts) - n) (ts @ [t])) = drop (Suc (length ts) - n) ts"
    by (subst butlast_drop) simp
  then have "butlast (newest n (ts @ [t])) = drop (Suc (length ts) - n) ts"
    by (simp add: newest_def)
  moreover have "Suc (length ts) - n < length ts"
    using assms by (cases ts) auto
  ultimately show ?thesis by simp
qed

lemma jitter_history_run:
  assumes "arrival_times jb = []" and "jitter_history jb = []"
  shows "jitter_history (jb_run jb ts) = newest 50 (deltas ts)"
proof (induction ts rule: rev_induct)
  case Nil
  then show ?case using assms by (simp add: jb_run_def newest_def)
next
  case (snoc t ts)
  have at: "deque_append 100 (arrival_times (jb_run jb ts)) t = newest 100 (ts @ [t])"
    by (simp add: arrival_times_run [OF assms(1)] deque_append_newest)
  show ?case
  proof (cases "ts = []")
    case True
    then show ?thesis
      using assms by (simp add: jb_run_def add_packet_def deque_append_def newest_def)
  next
    case False
    then have "2 \<le> length (newest 100 (ts @ [t]))"
      by (cases ts) (auto simp: length_newest)
    moreover have "last (newest 100 (ts @ [t])) = t"
      by (simp add: newest_def)
    ultimately show ?thesis
      using False snoc
      by (simp add: jb_run_snoc jitter_history_add_packet at last_butlast_newest
          deltas_snoc deque_append_newest)
  qed
qed

lemma abr_step_latency:
  "latency_history (abr_step fp s c) =
     (case c of UpdateMetrics l b \<Rightarrow> deque_append 30 (latency_history s) l
      | CalculateQuality t1 t2 \<Rightarrow> latency_history s)"
  by (cases c) (auto simp: update_metrics_def split: sum.splits dest: calculate_quality_histories)

lemma abr_step_bandwidth:
  "bandwidth_history (abr_step fp s c) =
     (case c of UpdateMetrics l b \<Rightarrow> deque_append 20 (bandwidth_history s) b
      | CalculateQuality t1 t2 \<Rightarrow> bandwidth_history s)"
  by (cases c) (auto simp: update_metrics_def split: sum.splits dest: calculate_quality_histories)

lemma inserted_latency_snoc:
  "inserted_latency (cs @ [c]) =
     inserted_latency cs @ (case c of UpdateMetrics l b \<Rightarrow> [l] | CalculateQuality t1 t2 \<Rightarrow> [])"
  by (induction cs rule: inserted_latency.induct) (auto split: abr_call.splits)

lemma inserted_bandwidth_snoc:
  "inserted_bandwidth (cs @ [c]) =
     inserted_bandwidth cs @ (case c of UpdateMetrics l b \<Rightarrow> [b] | CalculateQuality t1 t2 \<Rightarrow> [])"
  by (induction cs rule: inserted_bandwidth.induct) (auto split: abr_call.splits)

lemma latency_history_run:
  "latency_history s = [] \<Longrightarrow>
   latency_history (abr_run fp s cs) = newest 30 (inserted_latency cs)"
proof (induction cs rule: rev_induct)
  case Nil
  then show ?case by (simp add: abr_run_def newest_def)
next
  case (snoc c cs)
  then show ?case
    by (simp add: abr_run_snoc abr_step_latency inserted_latency_snoc deque_append_newest
        split: abr_call.splits)
qed

lemma bandwidth_history_run:
  "bandwidth_history s = [] \<Longrightarrow>
   bandwidth_history (abr_run fp s cs) = newest 20 (inserted_bandwidth cs)"
proof (induction cs rule: rev_induct)
  case Nil
  then show ?case by (simp add: abr_run_def newest_def)
next
  case (snoc c cs)
  then show ?case
    by (simp add: abr_run_snoc abr_step_bandwidth inserted_bandwidth_snoc deque_append_newest
        split: abr_call.splits)
qed

lemma length_deltas: "length (deltas ts) = length ts - 1"
  by (induction ts rule: deltas.induct) auto

lemma calculate_optimal_delay_few:
  "length (jitter_history jb) < 5 \<Longrightarrow> calculate_optimal_delay fp jb = Inr (target_delay jb, jb)"
  by (simp add: calculate_optimal_delay_def)

lemma calculate_optimal_delay_enough:
  assumes "5 \<le> length (jitter_history jb)"
  shows "calculate_optimal_delay fp jb =
     (let h = jitter_history jb;
          d = max (min_delay jb) (min (max_delay jb)
                (py_int (float_add fp (mean_value fp h) (float_mul fp 2 (stdev_result fp h)))))
      in Inr (d, jb\<lparr>current_delay := d\<rparr>))"
proof -
  from assms have "jitter_history jb \<noteq> []" "\<not> length (jitter_history jb) < 2"
    "\<not> length (jitter_history jb) < 5"
    by auto
  then show ?thesis
    by (simp add: calculate_optimal_delay_def stdev_def mean_def Let_def)
qed

lemma sqrt_400: "sqrt 400 = 20"
  by (rule real_sqrt_unique) simp_all

section \<open>Network optimizer: the claims\<close>

text \<open>
  C1. In every state a bitrate controller reaches through metric updates and tier
  selections, a tier selection made with at least 3 latency samples and with the
  cooldown elapsed returns the tier the threshold table of the specification gives for
  the mean latency and the mean bandwidth, each as \<^verbatim>\<open>statistics.mean\<close> returns it (rows in
  priority order, first match wins, 4K when no row matches); with fewer than 3 latency
  samples it returns the current tier and leaves the controller as it was.
\<close>

theorem tier_selection_table:
  assumes "s = abr_run fp (AdaptiveBitrate_init t0) calls"
  shows "(3 \<le> length (latency_history s) \<and> \<not> t_check - last_adjustment s < adjustment_cooldown s \<longrightarrow>
            (\<exists>s'. calculate_quality fp t_check t_adjust s =
               Inr (spec_tier (mean_value fp (latency_history s)) (mean_value fp (bandwidth_history s)), s')))
       \<and> (length (latency_history s) < 3 \<longrightarrow>
            calculate_quality fp t_check t_adjust s = Inr (current_preset s, s))"
proof -
  have inv: "abr_inv s"
    using assms abr_run_inv [OF abr_init_inv] by simp
  have "bandwidth_history s \<noteq> []" if "3 \<le> length (latency_history s)"
    using that inv by (auto simp: abr_inv_def)
  then show ?thesis
    using calculate_quality_elapsed [where s = s and ?t1.0 = t_check and ?t2.0 = t_adjust and fp = fp]
      calculate_quality_few [where s = s and fp = fp and ?t1.0 = t_check and ?t2.0 = t_adjust]
    by (auto simp: quality_target_spec)
qed

theorem tier_selection_table_witness:
  "(\<exists>s'. calculate_quality exact_fp 10 10
            (abr_run exact_fp (AdaptiveBitrate_init 0)
               [UpdateMetrics 200 5000, UpdateMetrics 200 5000, UpdateMetrics 200 5000]) =
          Inr (''480p'', s'))
   \<and> calculate_quality exact_fp 10 10 (abr_run exact_fp (AdaptiveBitrate_init 0) [UpdateMetrics 10 20000]) =
       Inr (''1080p'', abr_run exact_fp (AdaptiveBitrate_init 0) [UpdateMetrics 10 20000])"
  using tier_selection_table [OF refl, where fp = exact_fp and ?t0.0 = 0
      and calls = "[UpdateMetrics 200 5000, UpdateMetrics 200 5000, UpdateMetrics 200 5000]"
      and t_check = 10 and t_adjust = 10]
    tier_selection_table [OF refl, where fp = exact_fp and ?t0.0 = 0
      and calls = "[UpdateMetrics 10 20000]" and t_check = 10 and t_adjust = 10]
  by (simp add: abr_run_def AdaptiveBitrate_init_def update_metrics_def deque_append_def
      mean_value_def exact_fp_def spec_tier_def spec_tier_table_def)

text \<open>
  C2. A tier selection made before the cooldown since the last recorded adjustment has
  elapsed returns the current tier and leaves the controller unchanged, so the target
  it would have computed is stored nowhere. The default cooldown is 3 seconds, and in
  every run of metric updates and tier selections on a fresh controller whose clock
  does not go back, any two tier changes are at least 3 seconds apart.
\<close>

theorem cooldown_between_tier_changes:
  "(t_check - last_adjustment s < adjustment_cooldown s \<longrightarrow>
      calculate_quality fp t_check t_adjust s = Inr (current_preset s, s))
   \<and> adjustment_cooldown (AdaptiveBitrate_init t0) = 3
   \<and> (clock_ok t0 calls \<longrightarrow>
        sorted_wrt (\<lambda>a b. a + 3 \<le> b) (abr_changes fp (AdaptiveBitrate_init t0) calls))"
proof -
  have "sorted_wrt (\<lambda>a b. a + 3 \<le> b) (abr_changes fp (AdaptiveBitrate_init t0) calls)"
    if "clock_ok t0 calls"
    using abr_changes_separated [OF that, of "AdaptiveBitrate_init t0"]
    by (simp add: AdaptiveBitrate_init_def)
  then show ?thesis
    using calculate_quality_cooldown [where ?t1.0 = t_check and s = s and ?t2.0 = t_adjust and fp = fp]
    by (simp add: AdaptiveBitrate_init_def)
qed

lemma cooldown_calls_changes: "abr_changes exact_fp (AdaptiveBitrate_init 0) cooldown_calls = [5, 9]"
proof -
  let ?s3 = "\<lparr> current_preset = ''1080p'', latency_history = [200, 200, 200],
      bandwidth_history = [500, 500, 500], last_adjustment = 0, adjustment_cooldown = 3 \<rparr>"
  let ?s4 = "\<lparr> current_preset = ''480p'', latency_history = [200, 200, 200],
      bandwidth_history = [500, 500, 500], last_adjustment = 5, adjustment_cooldown = 3 \<rparr>"
  let ?s7 = "\<lparr> current_preset = ''480p'', latency_history = [200, 200, 200, 0, 0, 0],
      bandwidth_history = [500, 500, 500, 20000, 20000, 20000], last_adjustment = 5,
      adjustment_cooldown = 3 \<rparr>"
  let ?s9 = "\<lparr> current_preset = ''1080p'', latency_history = [200, 200, 200, 0, 0, 0],
      bandwidth_history = [500, 500, 500, 20000, 20000, 20000], last_adjustment = 9,
      adjustment_cooldown = 3 \<rparr>"
  have c4: "calculate_quality exact_fp 5 5 ?s3 = Inr (''480p'', ?s4)"
    by (simp add: calculate_quality_def mean_def mean_value_def exact_fp_def quality_target_def Let_def)
  have c8: "calculate_quality exact_fp 6 6 ?s7 = Inr (''480p'', ?s7)"
    by (simp add: calculate_quality_def)
  have c9: "calculate_quality exact_fp 9 9 ?s7 = Inr (''1080p'', ?s9)"
    by (simp add: calculate_quality_def mean_def mean_value_def exact_fp_def quality_target_def Let_def)
  have "abr_changes exact_fp (AdaptiveBitrate_init 0) cooldown_calls =
      abr_changes exact_fp ?s3 [CalculateQuality 5 5,
      UpdateMetrics 0 20000, UpdateMetrics 0 20000, UpdateMetrics 0 20000,
      CalculateQuality 6 6, CalculateQuality 9 9]"
    unfolding cooldown_calls_def abr_changes_Update
    by (simp add: AdaptiveBitrate_init_def update_metrics_def deque_append_def)
  also have "\<dots> = [5] @ abr_changes exact_fp ?s4 [UpdateMetrics 0 20000, UpdateMetrics 0 20000,
      UpdateMetrics 0 20000, CalculateQuality 6 6, CalculateQuality 9 9]"
    by (subst abr_changes_Calc [OF c4]) simp
  also have "\<dots> = [5] @ abr_changes exact_fp ?s7 [CalculateQuality 6 6, CalculateQuality 9 9]"
    unfolding abr_changes_Update
    by (simp add: update_metrics_def deque_append_def)
  also have "\<dots> = [5] @ abr_changes exact_fp ?s7 [CalculateQuality 9 9]"
    by (subst abr_changes_Calc [OF c8]) simp
  also have "\<dots> = [5, 9]"
    by (subst abr_changes_Calc [OF c9]) simp
  finally show ?thesis .
qed

lemma cooldown_calls_state:
  "abr_run exact_fp (AdaptiveBitrate_init 0) (take 7 cooldown_calls) =
      \<lparr> current_preset = ''480p'', latency_history = [200, 200, 200, 0, 0, 0],
      bandwidth_history = [500, 500, 500, 20000, 20000, 20000], last_adjustment = 5,
      adjustment_cooldown = 3 \<rparr>"
  by (simp add: cooldown_calls_def abr_run_def AdaptiveBitrate_init_def update_metrics_def
      deque_append_def calculate_quality_def mean_def mean_value_def exact_fp_def quality_target_def Let_def)

theorem cooldown_between_tier_changes_witness:
  "calculate_quality exact_fp 6 6 (abr_run exact_fp (AdaptiveBitrate_init 0) (take 7 cooldown_calls)) =
     Inr (''480p'', abr_run exact_fp (AdaptiveBitrate_init 0) (take 7 cooldown_calls))
   \<and> clock_ok 0 cooldown_calls
   \<and> abr_changes exact_fp (AdaptiveBitrate_init 0) cooldown_calls = [5, 9]
   \<and> sorted_wrt (\<lambda>a b. a + 3 \<le> b) (abr_changes exact_fp (AdaptiveBitrate_init 0) cooldown_calls)"
proof -
  have clk: "clock_ok 0 cooldown_calls"
    by (simp add: cooldown_calls_def)
  show ?thesis
    using cooldown_between_tier_changes
      [where t_check = 6 and t_adjust = 6 and fp = exact_fp and ?t0.0 = 0
        and s = "abr_run exact_fp (AdaptiveBitrate_init 0) (take 7 cooldown_calls)"
        and calls = cooldown_calls]
    by (simp add: cooldown_calls_state clk cooldown_calls_changes)
qed

text \<open>
  C3. With fewer than 5 recorded inter-arrival deltas the optimal delay is the configured
  target delay (50 ms by default) and the buffer is unchanged. With 5 or more it is the
  float sum of the mean of the deltas and twice their sample standard deviation, as the
  statistics library returns them, truncated towards zero and clamped from below by the
  minimum delay and from above by the maximum delay (20 ms and 200 ms by default), so
  it lies between them when the minimum does not exceed the maximum; the value is also
  stored as the current delay.
\<close>

theorem optimal_delay:
  "(length (jitter_history jb) < 5 \<longrightarrow>
      calculate_optimal_delay fp jb = Inr (target_delay jb, jb))
   \<and> (5 \<le> length (jitter_history jb) \<longrightarrow>
      (\<exists>d. calculate_optimal_delay fp jb = Inr (d, jb\<lparr>current_delay := d\<rparr>)
         \<and> d = max (min_delay jb) (min (max_delay jb)
                 (py_int (float_add fp (mean_value fp (jitter_history jb))
                            (float_mul fp 2 (stdev_result fp (jitter_history jb))))))
         \<and> (min_delay jb \<le> max_delay jb \<longrightarrow> min_delay jb \<le> d \<and> d \<le> max_delay jb)))
   \<and> target_delay JitterBuffer_default = 50
   \<and> min_delay JitterBuffer_default = 20
   \<and> max_delay JitterBuffer_default = 200"
  using calculate_optimal_delay_few [of jb fp] calculate_optimal_delay_enough [of jb fp]
  by (auto simp: Let_def JitterBuffer_default_def JitterBuffer_init_def)

theorem optimal_delay_witness:
  "calculate_optimal_delay exact_fp (jb_run JitterBuffer_default [0, 80]) =
     Inr (50, jb_run JitterBuffer_default [0, 80])
   \<and> (\<exists>jb'. calculate_optimal_delay exact_fp (jb_run JitterBuffer_default [0, 80, 200, 280, 400, 500]) =
        Inr (140, jb'))"
proof -
  have h1: "jitter_history (jb_run JitterBuffer_default [0, 80]) = [80]"
    by (simp add: jb_run_def JitterBuffer_default_def JitterBuffer_init_def add_packet_def
        deque_append_def)
  have h2: "jitter_history (jb_run JitterBuffer_default [0, 80, 200, 280, 400, 500])
      = [80, 120, 80, 120, 100]"
    by (simp add: jb_run_def JitterBuffer_default_def JitterBuffer_init_def add_packet_def
        deque_append_def)
  have lim: "min_delay (jb_run JitterBuffer_default ts) = 20
      \<and> max_delay (jb_run JitterBuffer_default ts) = 200
      \<and> target_delay (jb_run JitterBuffer_default ts) = 50" for ts
    unfolding jb_run_def
    by (induction ts rule: rev_induct)
      (simp_all add: JitterBuffer_default_def JitterBuffer_init_def add_packet_def Let_def)
  have m: "mean_value exact_fp [80, 120, 80, 120, 100] = 100"
    by (simp add: mean_value_def exact_fp_def)
  have sd: "stdev_result exact_fp [80, 120, 80, 120, 100] = 20"
    by (simp add: exact_fp_def sqrt_400)
  have "py_int (float_add exact_fp 100 (float_mul exact_fp 2 20)) = 140"
    by (simp add: py_int_def float_add_def float_mul_def exact_fp_def)
  then show ?thesis
    using optimal_delay [of "jb_run JitterBuffer_default [0, 80]" exact_fp]
      optimal_delay [of "jb_run JitterBuffer_default [0, 80, 200, 280, 400, 500]" exact_fp]
    by (simp add: h1 h2 lim m sd)
qed

text \<open>
  C5. After any run of insertions on a fresh jitter buffer or bitrate controller each
  window holds exactly the newest elements inserted, in insertion order, up to its
  bound: 100 arrival times, 50 inter-arrival deltas, 30 latency samples, 20 bandwidth
  samples. One more insertion appends the element and, when the window is full, drops
  exactly its oldest element. After 1000 packets the jitter window holds the 50 newest
  deltas.
\<close>

theorem bounded_windows:
  assumes "jb = jb_run (JitterBuffer_init mn mx tgt) ts"
    and "s = abr_run fp (AdaptiveBitrate_init t0) cs"
  shows "arrival_times jb = newest 100 ts \<and> length (arrival_times jb) \<le> 100
       \<and> jitter_history jb = newest 50 (deltas ts) \<and> length (jitter_history jb) \<le> 50
       \<and> latency_history s = newest 30 (inserted_latency cs) \<and> length (latency_history s) \<le> 30
       \<and> bandwidth_history s = newest 20 (inserted_bandwidth cs)
       \<and> length (bandwidth_history s) \<le> 20
       \<and> arrival_times (add_packet now jb) =
           (if length (arrival_times jb) < 100 then arrival_times jb @ [now]
            else tl (arrival_times jb) @ [now])
       \<and> (ts \<noteq> [] \<longrightarrow> jitter_history (add_packet now jb) =
           (if length (jitter_history jb) < 50 then jitter_history jb @ [now - last ts]
            else tl (jitter_history jb) @ [now - last ts]))
       \<and> latency_history (update_metrics l b s) =
           (if length (latency_history s) < 30 then latency_history s @ [l]
            else tl (latency_history s) @ [l])
       \<and> bandwidth_history (update_metrics l b s) =
           (if length (bandwidth_history s) < 20 then bandwidth_history s @ [b]
            else tl (bandwidth_history s) @ [b])
       \<and> (length ts = 1000 \<longrightarrow> jitter_history jb = drop 949 (deltas ts)
             \<and> length (jitter_history jb) = 50)"
proof -
  have a: "arrival_times jb = newest 100 ts"
    using assms(1) by (simp add: arrival_times_run JitterBuffer_init_def)
  have j: "jitter_history jb = newest 50 (deltas ts)"
    using assms(1) by (simp add: jitter_history_run JitterBuffer_init_def)
  have l: "latency_history s = newest 30 (inserted_latency cs)"
    using assms(2) by (simp add: latency_history_run AdaptiveBitrate_init_def)
  have w: "bandwidth_history s = newest 20 (inserted_bandwidth cs)"
    using assms(2) by (simp add: bandwidth_history_run AdaptiveBitrate_init_def)
  have la: "length (arrival_times jb) \<le> 100" and lj: "length (jitter_history jb) \<le> 50"
    and ll: "length (latency_history s) \<le> 30" and lw: "length (bandwidth_history s) \<le> 20"
    by (simp_all add: a j l w length_newest)
  have sa: "arrival_times (add_packet now jb) =
           (if length (arrival_times jb) < 100 then arrival_times jb @ [now]
            else tl (arrival_times jb) @ [now])"
    using la by (simp add: arrival_times_add_packet deque_append_evicts_oldest)
  have sj: "jitter_history (add_packet now jb) =
           (if length (jitter_history jb) < 50 then jitter_history jb @ [now - last ts]
            else tl (jitter_history jb) @ [now - last ts])" if "ts \<noteq> []"
  proof -
    have "jitter_history (add_packet now jb) = newest 50 (deltas (ts @ [now]))"
      using jitter_history_run [of "JitterBuffer_init mn mx tgt" "ts @ [now]"] assms(1)
      by (simp add: jb_run_snoc JitterBuffer_init_def)
    also have "\<dots> = deque_append 50 (jitter_history jb) (now - last ts)"
      using that by (simp add: deltas_snoc j deque_append_newest)
    finally show ?thesis
      using lj by (simp add: deque_append_evicts_oldest)
  qed
  have sl: "latency_history (update_metrics l b s) =
           (if length (latency_history s) < 30 then latency_history s @ [l]
            else tl (latency_history s) @ [l])"
    using ll by (simp add: update_metrics_def deque_append_evicts_oldest)
  have sw: "bandwidth_history (update_metrics l b s) =
           (if length (bandwidth_history s) < 20 then bandwidth_history s @ [b]
            else tl (bandwidth_history s) @ [b])"
    using lw by (simp add: update_metrics_def deque_append_evicts_oldest)
  have k: "jitter_history jb = drop 949 (deltas ts) \<and> length (jitter_history jb) = 50"
    if "length ts = 1000"
    using that by (simp add: j newest_def length_deltas)
  from a j l w la lj ll lw sa sj sl sw k show ?thesis
    by blast
qed

theorem bounded_windows_witness:
  "arrival_times (jb_run (JitterBuffer_init 20 200 50) (map real [0..<101])) = map real [1..<101]
   \<and> length (jitter_history (jb_run (JitterBuffer_init 20 200 50) (map real [0..<1000]))) = 50
   \<and> latency_history (abr_run exact_fp (AdaptiveBitrate_init 0) [UpdateMetrics 7 9]) = [7]"
proof -
  note a = bounded_windows [OF refl refl, where mn = 20 and mx = 200 and tgt = 50
      and ts = "map real [0..<101]" and ?t0.0 = 0 and cs = "[UpdateMetrics 7 9]"
      and now = 0 and l = 0 and b = 0]
  note b = bounded_windows [OF refl refl, where mn = 20 and mx = 200 and tgt = 50
      and ts = "map real [0..<1000]" and ?t0.0 = 0 and cs = "[]"
      and now = 0 and l = 0 and b = 0]
  from a have "arrival_times (jb_run (JitterBuffer_init 20 200 50) (map real [0..<101]))
      = newest 100 (map real [0..<101])"
    by blast
  then have 1: "arrival_times (jb_run (JitterBuffer_init 20 200 50) (map real [0..<101]))
      = map real [1..<101]"
    by (simp add: newest_def drop_map)
  from b have "length (map real [0..<1000]) = 1000 \<longrightarrow>
      length (jitter_history (jb_run (JitterBuffer_init 20 200 50) (map real [0..<1000]))) = 50"
    by blast
  then have 2: "length (jitter_history (jb_run (JitterBuffer_init 20 200 50) (map real [0..<1000]))) = 50"
    by simp
  from a have "latency_history (abr_run exact_fp (AdaptiveBitrate_init 0) [UpdateMetrics 7 9])
      = newest 30 (inserted_latency [UpdateMetrics 7 9])"
    by blast
  then have 3: "latency_history (abr_run exact_fp (AdaptiveBitrate_init 0) [UpdateMetrics 7 9]) = [7]"
    by (simp add: newest_def)
  from 1 2 3 show ?thesis by blast
qed

section \<open>Screen capture: monitor selection\<close>

lemma length_refresh_monitors [simp]:
  "length (monitors_info (refresh_monitors mons sc)) = length mons"
  by (simp add: refresh_monitors_def)

lemma refresh_monitors_fields [simp]:
  "monitor_index (refresh_monitors mons sc) = monitor_index sc"
  "monitor (refresh_monitors mons sc) = monitor sc"
  "capture_width (refresh_monitors mons sc) = capture_width sc"
  "capture_height (refresh_monitors mons sc) = capture_height sc"
  by (simp_all add: refresh_monitors_def)

lemma refresh_monitors_nth:
  assumes "k < length mons"
  shows "info_left (monitors_info (refresh_monitors mons sc) ! k) = mss_left (mons ! k)"
    and "info_top (monitors_info (refresh_monitors mons sc) ! k) = mss_top (mons ! k)"
    and "info_width (monitors_info (refresh_monitors mons sc) ! k) = mss_width (mons ! k)"
    and "info_height (monitors_info (refresh_monitors mons sc) ! k) = mss_height (mons ! k)"
    and "info_index (monitors_info (refresh_monitors mons sc) ! k) = k"
  using assms by (simp_all add: refresh_monitors_def nth_enumerate_eq)

text \<open>
  C10. A monitor selection with an index that is negative or at least the number of
  monitors enumerated at the call returns an error result and leaves the selected
  monitor index, the capture region and the recorded width and height as they were.
  A selection with an index in range returns an ok result carrying that monitor's
  width and height, records the index and sets the capture region to the monitor's
  bounding rectangle.
\<close>

theorem select_monitor_range:
  assumes "r = select_monitor mons idx sc"
  shows "(idx < 0 \<or> int (length mons) \<le> idx \<longrightarrow>
            fst r = MonitorError (''Invalid monitor index: '' @ str_int idx)
          \<and> monitor_index (snd r) = monitor_index sc
          \<and> monitor (snd r) = monitor sc
          \<and> capture_width (snd r) = capture_width sc
          \<and> capture_height (snd r) = capture_height sc)
       \<and> (0 \<le> idx \<and> idx < int (length mons) \<longrightarrow>
            (\<exists>name. fst r = MonitorOk idx name (mss_width (mons ! nat idx))
                                (mss_height (mons ! nat idx)))
          \<and> monitor (snd r) = Some (bounding_rect (mons ! nat idx))
          \<and> monitor_index (snd r) = idx
          \<and> capture_width (snd r) = Some (mss_width (mons ! nat idx))
          \<and> capture_height (snd r) = Some (mss_height (mons ! nat idx)))"
proof -
  have bad_case: "fst r = MonitorError (''Invalid monitor index: '' @ str_int idx)
          \<and> monitor_index (snd r) = monitor_index sc
          \<and> monitor (snd r) = monitor sc
          \<and> capture_width (snd r) = capture_width sc
          \<and> capture_height (snd r) = capture_height sc"
    if bad: "idx < 0 \<or> int (length mons) \<le> idx"
  proof -
    from bad have "r = (MonitorError (''Invalid monitor index: '' @ str_int idx), refresh_monitors mons sc)"
      using assms by (auto simp: select_monitor_def Let_def)
    then show ?thesis by simp
  qed
  have ok_case: "(\<exists>name. fst r = MonitorOk idx name (mss_width (mons ! nat idx))
                                (mss_height (mons ! nat idx)))
          \<and> monitor (snd r) = Some (bounding_rect (mons ! nat idx))
          \<and> monitor_index (snd r) = idx
          \<and> capture_width (snd r) = Some (mss_width (mons ! nat idx))
          \<and> capture_height (snd r) = Some (mss_height (mons ! nat idx))"
    if ok: "0 \<le> idx \<and> idx < int (length mons)"
  proof -
  from ok have k: "nat idx < length mons" by (simp add: nat_less_iff)
  note nth = refresh_monitors_nth [OF k, of sc]
  from ok have "\<not> (idx < 0 \<or> int (length mons) \<le> idx)" by simp
  then have r: "r = (let mon = monitors_info (refresh_monitors mons sc) ! nat idx
       in (MonitorOk idx (info_name mon) (info_width mon) (info_height mon),
           refresh_monitors mons sc\<lparr> monitor_index := idx,
                             monitor := Some \<lparr> region_left = info_left mon,
                                               region_top = info_top mon,
                                               region_width = info_width mon,
                                               region_height = info_height mon \<rparr>,
                             capture_width := Some (info_width mon),
                             capture_height := Some (info_height mon) \<rparr>))"
    using assms by (simp add: select_monitor_def Let_def)
  show ?thesis
    by (simp add: r Let_def nth bounding_rect_def)
  qed
  from bad_case ok_case show ?thesis by blast
qed

theorem select_monitor_range_witness:
  "fst (select_monitor two_monitors 3 capture_on_primary) =
      MonitorError ''Invalid monitor index: 3''
   \<and> monitor (snd (select_monitor two_monitors 3 capture_on_primary)) =
      Some \<lparr> region_left = 0, region_top = 0, region_width = 1920, region_height = 1080 \<rparr>
   \<and> fst (select_monitor two_monitors (- 1) capture_on_primary) =
      MonitorError ''Invalid monitor index: -1''
   \<and> fst (select_monitor two_monitors 2 capture_on_primary) = MonitorOk 2 ''Monitor 2'' 1920 1080
   \<and> monitor (snd (select_monitor two_monitors 2 capture_on_primary)) =
      Some \<lparr> region_left = 1920, region_top = 0, region_width = 1920, region_height = 1080 \<rparr>"
proof -
  have len: "length two_monitors = 3"
    by (simp add: two_monitors_def)
  have s3: "str_int 3 = ''3''" and s1: "str_int (- 1) = ''-1''"
    by (simp_all add: str_int_def str_nat.simps)
  have m: "monitor capture_on_primary =
      Some \<lparr> region_left = 0, region_top = 0, region_width = 1920, region_height = 1080 \<rparr>"
    by (simp add: capture_on_primary_def select_monitor_def two_monitors_def
        refresh_monitors_def enumerate_eq_zip upt_rec Let_def)
  have n2: "fst (select_monitor two_monitors 2 capture_on_primary) = MonitorOk 2 ''Monitor 2'' 1920 1080"
    by (simp add: select_monitor_def two_monitors_def
        refresh_monitors_def enumerate_eq_zip upt_rec Let_def str_nat.simps)
  have b2: "bounding_rect (two_monitors ! 2) =
      \<lparr> region_left = 1920, region_top = 0, region_width = 1920, region_height = 1080 \<rparr>"
    by (simp add: bounding_rect_def two_monitors_def)
  show ?thesis
    using select_monitor_range [OF refl, where mons = two_monitors and idx = 3 and sc = capture_on_primary]
      select_monitor_range [OF refl, where mons = two_monitors and idx = "- 1" and sc = capture_on_primary]
      select_monitor_range [OF refl, where mons = two_monitors and idx = 2 and sc = capture_on_primary]
    by (simp add: len s3 s1 m n2 b2)
qed

section \<open>Hardware encoder selection\<close>

lemma first_available_Some:
  "first_available ts es = Some e \<Longrightarrow> available e \<and> e \<in> set es \<and> encoder_type e \<in> set ts"
  by (induction ts) (auto split: option.splits simp: find_Some_iff)

lemma first_available_None:
  "first_available ts es = None \<Longrightarrow> e \<in> set es \<Longrightarrow> encoder_type e \<in> set ts \<Longrightarrow> \<not> available e"
  by (induction ts) (auto split: option.splits simp: find_None_iff)

lemma priority_complete: "t \<in> set priority"
  by (cases t) (simp_all add: priority_def)

lemma select_best_encoder_available:
  assumes "\<exists>e \<in> set (available_encoders m). available e"
  shows "\<exists>e. selected_encoder (select_best_encoder m) = Some e \<and> available e
            \<and> e \<in> set (available_encoders m)"
proof (cases "first_available priority (available_encoders m)")
  case None
  with assms first_available_None [OF None _ priority_complete] show ?thesis by blast
next
  case (Some e)
  with first_available_Some [OF Some] show ?thesis
    by (simp add: select_best_encoder_def)
qed

lemma select_best_encoder_list [simp]:
  "available_encoders (select_best_encoder m) = available_encoders m"
  by (simp add: select_best_encoder_def split: option.splits)

lemma select_encoder_unlisted:
  assumes "\<not> (\<exists>e \<in> set (available_encoders m). name e = n \<and> available e)"
  shows "select_encoder n m = (EncoderError (''Encoder not available: '' @ n), m)"
proof -
  from assms have "find (\<lambda>encoder. name encoder = n \<and> available encoder) (available_encoders m) = None"
    by (auto simp: find_None_iff)
  then show ?thesis by (simp add: select_encoder_def)
qed

lemma select_encoder_ok: "selection_ok m \<Longrightarrow> selection_ok (snd (select_encoder n m))"
  by (auto simp: selection_ok_def select_encoder_def find_Some_iff split: option.splits)

lemma select_all_ok: "selection_ok m \<Longrightarrow> selection_ok (select_all m names)"
  unfolding select_all_def
  by (induction names arbitrary: m) (simp_all add: select_encoder_ok)

lemma detect_encoders_shape:
  "selection_ok (detect_encoders host m)
   \<or> (\<exists>m'. detect_encoders host m = select_best_encoder m'
          \<and> software_encoder \<in> set (available_encoders m'))"
proof (cases "which_ffmpeg host")
  case None
  then show ?thesis
    by (simp add: detect_encoders_def selection_ok_def software_encoder_def)
next
  case (Some p)
  then show ?thesis
    by (auto simp: detect_encoders_def Let_def)
qed

lemma detect_encoders_ok: "selection_ok (detect_encoders host m)"
proof -
  have "selection_ok (select_best_encoder m')"
    if "software_encoder \<in> set (available_encoders m')" for m'
  proof -
    have "available software_encoder"
      by (simp add: software_encoder_def)
    with that have "\<exists>e \<in> set (available_encoders m'). available e" by blast
    from select_best_encoder_available [OF this] show ?thesis
      by (simp add: selection_ok_def)
  qed
  with detect_encoders_shape [of host m] show ?thesis by auto
qed

text \<open>
  C8. A selection request naming an encoder that no entry of the list offers as
  available (it failed its smoke test, or no entry has that name) returns the error
  status with the message that the encoder is not available, and the manager, with
  its selected encoder, is exactly as before. The automatic selection of the best
  encoder picks an available entry whenever the list has one, and after construction
  on any host and any run of explicit selections the selected encoder is an available
  entry of the list.
\<close>

theorem select_encoder_unavailable:
  "(\<not> (\<exists>e \<in> set (available_encoders m). name e = n \<and> available e) \<longrightarrow>
      select_encoder n m = (EncoderError (''Encoder not available: '' @ n), m))
   \<and> ((\<exists>e \<in> set (available_encoders m). available e) \<longrightarrow>
       (\<exists>e. selected_encoder (select_best_encoder m) = Some e \<and> available e
          \<and> e \<in> set (available_encoders m)))
   \<and> (\<exists>e. selected_encoder (select_all (HardwareEncoderManager_init host) names) = Some e
          \<and> available e
          \<and> e \<in> set (available_encoders (select_all (HardwareEncoderManager_init host) names)))"
proof -
  have "selection_ok (select_all (HardwareEncoderManager_init host) names)"
    unfolding HardwareEncoderManager_init_def
    by (rule select_all_ok [OF detect_encoders_ok])
  then show ?thesis
    using select_encoder_unlisted [of m n] select_best_encoder_available [of m]
    unfolding selection_ok_def by blast
qed

lemma nvenc_broken_manager:
  "HardwareEncoderManager_init nvenc_broken_host =
     \<lparr> available_encoders =
         [software_encoder,
          \<lparr> encoder_type = NVENC, name = ''h264_nvenc'', codec = ''h264'', available = False,
            description = ''NVIDIA NVENC H.264 encoder'' \<rparr>,
          \<lparr> encoder_type = QUICKSYNC, name = ''h264_qsv'', codec = ''h264'', available = True,
            description = ''Intel QuickSync H.264 encoder'' \<rparr>],
       selected_encoder =
         Some \<lparr> encoder_type = QUICKSYNC, name = ''h264_qsv'', codec = ''h264'',
                available = True, description = ''Intel QuickSync H.264 encoder'' \<rparr>,
       ffmpeg_path = Some ''/usr/bin/ffmpeg'' \<rparr>"
  by (simp add: HardwareEncoderManager_init_def detect_encoders_def nvenc_broken_host_def
      probe_encoder_def test_encoder_def select_best_encoder_def priority_def
      software_encoder_def Let_def)

theorem select_encoder_unavailable_witness:
  "select_encoder ''h264_nvenc'' (HardwareEncoderManager_init nvenc_broken_host) =
     (EncoderError ''Encoder not available: h264_nvenc'',
      HardwareEncoderManager_init nvenc_broken_host)
   \<and> select_encoder ''h264_amf'' (HardwareEncoderManager_init nvenc_broken_host) =
     (EncoderError ''Encoder not available: h264_amf'',
      HardwareEncoderManager_init nvenc_broken_host)
   \<and> map_option name (selected_encoder
        (select_best_encoder (HardwareEncoderManager_init nvenc_broken_host))) = Some ''h264_qsv''"
proof -
  have sel: "selected_encoder (select_best_encoder (HardwareEncoderManager_init nvenc_broken_host))
      = selected_encoder (HardwareEncoderManager_init nvenc_broken_host)"
    by (simp add: nvenc_broken_manager select_best_encoder_def priority_def software_encoder_def)
  show ?thesis
    using select_encoder_unavailable
        [of "HardwareEncoderManager_init nvenc_broken_host" "''h264_nvenc''" nvenc_broken_host "[]"]
      select_encoder_unavailable
        [of "HardwareEncoderManager_init nvenc_broken_host" "''h264_amf''" nvenc_broken_host "[]"]
    by (simp add: sel) (simp add: nvenc_broken_manager software_encoder_def)
qed

section \<open>Audio track: auxiliary facts\<close>

lemma recv_track:
  "snd (recv fp s) =
     s\<lparr>audio_queue := tl (audio_queue s),
       timestamp := timestamp s + int (samples_per_frame s)\<rparr>"
  by (simp add: recv_def Let_def)

lemma recv_frame:
  assumes "fst (recv fp s) = Inr f"
  shows "pts f = timestamp s" and "frame_samples f = samples_per_frame s"
    and "plane f = to_int16 fp (mute_volume fp s (next_block s))"
  using assms by (auto simp: recv_def Let_def mute_volume_def split: if_splits)

lemma recv_succeeds:
  assumes "nbytes (to_int16 fp (mute_volume fp s (next_block s)))
             = plane_size (if channels s = 2 then ''stereo'' else ''mono'') (samples_per_frame s)"
    and "0 < sample_rate s"
  shows "\<exists>f. fst (recv fp s) = Inr f"
  using assms by (auto simp: recv_def Let_def mute_volume_def split: if_splits)

lemma track_step_Recv:
  "track_step fp s Recv =
     (case fst (recv fp s) of Inl e \<Rightarrow> None | Inr f \<Rightarrow> Some f, snd (recv fp s))"
  by (cases "recv fp s"; cases "fst (recv fp s)") auto

lemma track_step_fields [simp]:
  "samples_per_frame (snd (track_step fp s e)) = samples_per_frame s"
  "channels (snd (track_step fp s e)) = channels s"
  "sample_rate (snd (track_step fp s e)) = sample_rate s"
  by (cases e; simp add: track_step_Recv recv_track queue_block_def set_muted_def
      set_volume_def stop_def del: track_step.simps(1))+

lemma track_run_fields [simp]:
  "samples_per_frame (track_run fp s evs) = samples_per_frame s"
  "channels (track_run fp s evs) = channels s"
  "sample_rate (track_run fp s evs) = sample_rate s"
  unfolding track_run_def by (induction evs arbitrary: s; simp)+

lemma track_step_timestamp:
  "timestamp (snd (track_step fp s e)) =
     (if e = Recv then timestamp s + int (samples_per_frame s) else timestamp s)"
  by (cases e; simp add: track_step_Recv recv_track queue_block_def set_muted_def
      set_volume_def stop_def del: track_step.simps(1))

lemma track_step_frame:
  "fst (track_step fp s e) =
     (if e = Recv then (case fst (recv fp s) of Inl err \<Rightarrow> None | Inr f \<Rightarrow> Some f) else None)"
  by (cases e; simp add: track_step_Recv del: track_step.simps(1))

lemma emitted_Cons:
  "emitted fp s (e # evs) =
     (case fst (track_step fp s e) of
        None \<Rightarrow> emitted fp (snd (track_step fp s e)) evs
      | Some f \<Rightarrow> f # emitted fp (snd (track_step fp s e)) evs)"
  by (cases "track_step fp s e") (auto split: option.splits)

lemma track_run_Cons: "track_run fp s (e # evs) = track_run fp (snd (track_step fp s e)) evs"
  by (simp add: track_run_def)

lemma track_run_timestamp:
  "timestamp (track_run fp s evs) =
     timestamp s + int (samples_per_frame s) * int (length (filter (\<lambda>e. e = Recv) evs))"
proof (induction evs arbitrary: s)
  case Nil
  then show ?case by (simp add: track_run_def)
next
  case (Cons e evs)
  show ?case
    by (simp add: track_run_Cons Cons track_step_timestamp algebra_simps
        del: track_step.simps)
qed

lemma pts_emitted_increasing:
  assumes "0 < samples_per_frame s"
  shows "sorted_wrt (<) (map pts (emitted fp s evs))
       \<and> (\<forall>f \<in> set (emitted fp s evs). timestamp s \<le> pts f)"
  using assms
proof (induction evs arbitrary: s)
  case Nil
  then show ?case by simp
next
  case (Cons e evs)
  define s' where "s' = snd (track_step fp s e)"
  have spf: "0 < samples_per_frame s'"
    using Cons.prems by (simp add: s'_def)
  have ts: "timestamp s \<le> timestamp s'"
    by (simp add: s'_def track_step_timestamp del: track_step.simps)
  note ih = Cons.IH [OF spf]
  show ?case
  proof (cases "fst (track_step fp s e)")
    case None
    then have "emitted fp s (e # evs) = emitted fp s' evs"
      by (simp add: emitted_Cons s'_def del: emitted.simps track_step.simps)
    with ih ts show ?thesis by fastforce
  next
    case (Some f)
    then have e: "e = Recv" and f: "fst (recv fp s) = Inr f"
      by (auto simp: track_step_frame split: if_splits sum.splits simp del: track_step.simps)
    have em: "emitted fp s (e # evs) = f # emitted fp s' evs"
      using Some by (simp add: emitted_Cons s'_def del: emitted.simps track_step.simps)
    have p: "pts f = timestamp s"
      by (rule recv_frame(1) [OF f])
    have "timestamp s' = timestamp s + int (samples_per_frame s)"
      using e by (simp add: s'_def track_step_timestamp del: track_step.simps)
    with Cons.prems have lt: "timestamp s < timestamp s'" by simp
    from ih lt show ?thesis
      unfolding em by (auto simp: p)
  qed
qed

lemma sum_list_length_shape:
  "has_shape n c a \<Longrightarrow> sum_list (map length a) = n * c"
proof -
  assume h: "has_shape n c a"
  then have "map length a = replicate (length a) c"
    by (auto simp: has_shape_def map_replicate_const [symmetric] intro: map_cong)
  with h show ?thesis
    by (simp add: has_shape_def sum_list_replicate)
qed

lemma has_shape_to_int16 [simp]: "has_shape n c (to_int16 fp a) = has_shape n c a"
  by (auto simp: has_shape_def to_int16_def)

lemma has_shape_mute_volume [simp]: "has_shape n c (mute_volume fp s a) = has_shape n c a"
  by (auto simp: has_shape_def mute_volume_def np_zeros_like_def)

lemma recv_shaped:
  assumes "has_shape (samples_per_frame s) (channels s) (next_block s)"
    and "channels s = 1 \<or> channels s = 2" and "0 < sample_rate s"
  shows "\<exists>f. fst (recv fp s) = Inr f"
proof (rule recv_succeeds)
  have "has_shape (samples_per_frame s) (channels s) (to_int16 fp (mute_volume fp s (next_block s)))"
    using assms(1) by simp
  from sum_list_length_shape [OF this] assms(2)
  show "nbytes (to_int16 fp (mute_volume fp s (next_block s)))
      = plane_size (if channels s = 2 then ''stereo'' else ''mono'') (samples_per_frame s)"
    by (auto simp: nbytes_def plane_size_def layout_channels_def)
qed (rule assms(3))

lemma next_block_silence:
  "audio_queue s = [] \<Longrightarrow>
   next_block s = replicate (samples_per_frame s) (replicate (channels s) 0)"
  by (simp add: next_block_def np_zeros_def)

lemma astype_int16_zero [simp]: "astype_int16 fp 0 = 0"
  by (simp add: astype_int16_def py_int_def)

lemma np_multiply_zero [simp]: "np_multiply fp 0 y = 0"
  by (simp add: np_multiply_def)

lemma silence_samples:
  "to_int16 fp (mute_volume fp s (replicate n (replicate c 0))) = replicate n (replicate c 0)"
  by (simp add: to_int16_def mute_volume_def np_zeros_like_def)

lemma next_block_shaped:
  "all_shaped s \<Longrightarrow> has_shape (samples_per_frame s) (channels s) (next_block s)"
  by (cases "audio_queue s") (auto simp: all_shaped_def next_block_def np_zeros_def has_shape_def)

lemma all_shaped_step:
  assumes "all_shaped s"
    and "\<forall>b \<in> set (captured_blocks [e]). has_shape (samples_per_frame s) (channels s) b"
  shows "all_shaped (snd (track_step fp s e))"
proof (cases e)
  case Recv
  with assms(1) show ?thesis
    by (cases "audio_queue s")
      (auto simp: all_shaped_def track_step_Recv recv_track simp del: track_step.simps(1))
next
  case (Captured b)
  with assms show ?thesis
    by (auto simp: all_shaped_def queue_block_def)
qed (use assms(1) in \<open>auto simp: all_shaped_def set_muted_def set_volume_def stop_def\<close>)

lemma captured_blocks_head:
  "b \<in> set (captured_blocks [e]) \<Longrightarrow> b \<in> set (captured_blocks (e # evs))"
  by (cases e) auto

lemma captured_blocks_tail:
  "b \<in> set (captured_blocks evs) \<Longrightarrow> b \<in> set (captured_blocks (e # evs))"
  by (cases e) auto

lemma pts_emitted_exact:
  assumes "all_shaped s" and "channels s = 1 \<or> channels s = 2" and "0 < sample_rate s"
    and "\<forall>b \<in> set (captured_blocks evs). has_shape (samples_per_frame s) (channels s) b"
  shows "map pts (emitted fp s evs) =
     map (\<lambda>k. timestamp s + int (samples_per_frame s) * int k)
       [0..<length (filter (\<lambda>e. e = Recv) evs)]"
  using assms
proof (induction evs arbitrary: s)
  case Nil
  then show ?case by simp
next
  case (Cons e evs)
  define s' where "s' = snd (track_step fp s e)"
  have sh: "all_shaped s'"
    unfolding s'_def using Cons.prems(1,4) captured_blocks_head [of _ e evs]
    by (intro all_shaped_step) blast+
  have ih: "map pts (emitted fp s' evs) =
     map (\<lambda>k. timestamp s' + int (samples_per_frame s) * int k)
       [0..<length (filter (\<lambda>e. e = Recv) evs)]"
    using Cons.IH [OF sh] Cons.prems(2,3,4) captured_blocks_tail [of _ evs e]
    by (simp add: s'_def)
  show ?case
  proof (cases "e = Recv")
    case True
    from recv_shaped [OF next_block_shaped [OF Cons.prems(1)] Cons.prems(2,3)]
    obtain f where f: "fst (recv fp s) = Inr f" by blast
    have "emitted fp s (e # evs) = f # emitted fp s' evs"
      using True f by (simp add: emitted_Cons track_step_frame s'_def
          del: emitted.simps track_step.simps)
    moreover have "timestamp s' = timestamp s + int (samples_per_frame s)"
      using True by (simp add: s'_def track_step_timestamp del: track_step.simps)
    ultimately show ?thesis
      using True ih recv_frame(1) [OF f]
      by (simp add: map_upt_Suc algebra_simps del: upt_Suc)
  next
    case False
    then have "emitted fp s (e # evs) = emitted fp s' evs"
      by (simp add: emitted_Cons track_step_frame s'_def del: emitted.simps track_step.simps)
    moreover have "timestamp s' = timestamp s"
      using False by (simp add: s'_def track_step_timestamp del: track_step.simps)
    ultimately show ?thesis
      using False ih by simp
  qed
qed

lemma init_fields [simp]:
  "samples_per_frame (AudioCaptureTrack_init backend rate chans) = 960"
  "channels (AudioCaptureTrack_init backend rate chans) = chans"
  "sample_rate (AudioCaptureTrack_init backend rate chans) = rate"
  "timestamp (AudioCaptureTrack_init backend rate chans) = 0"
  "audio_queue (AudioCaptureTrack_init backend rate chans) = []"
  by (simp_all add: AudioCaptureTrack_init_def)

lemma py_int_bounds:
  assumes "\<bar>v\<bar> \<le> real_of_int n"
  shows "\<bar>py_int v\<bar> \<le> n"
proof (cases "v \<ge> 0")
  case True
  then have "0 \<le> \<lfloor>v\<rfloor>" by simp
  moreover have "\<lfloor>v\<rfloor> \<le> n" using assms True by (simp add: floor_le_iff)
  ultimately show ?thesis using True by (simp add: py_int_def)
next
  case False
  then have "\<lceil>v\<rceil> \<le> 0" by (simp add: ceiling_le_iff)
  moreover have "- n \<le> \<lceil>v\<rceil>" using assms False by (simp add: le_ceiling_iff)
  ultimately show ?thesis using False by (simp add: py_int_def)
qed

lemma astype_int16_in_range:
  assumes "\<bar>v\<bar> \<le> 32767"
  shows "sint (astype_int16 fp v) = py_int v" and "\<bar>py_int v\<bar> \<le> 32767"
    and "spec_quantize v = py_int v"
proof -
  from assms have "\<bar>v\<bar> \<le> real_of_int 32767" by simp
  from py_int_bounds [OF this] show b: "\<bar>py_int v\<bar> \<le> 32767" .
  then have "- 2147483648 \<le> py_int v \<and> py_int v \<le> 2147483647"
    by linarith
  then have "astype_int16 fp v = word_of_int (py_int v)"
    by (simp add: astype_int16_def)
  with b show "sint (astype_int16 fp v) = py_int v"
    by (simp add: sint_sbintrunc' signed_take_bit_int_eq_self)
  from b show "spec_quantize v = py_int v"
    by (simp add: spec_quantize_def)
qed

lemma track_step_volume:
  "0 \<le> volume s \<and> volume s \<le> 1 \<Longrightarrow>
   0 \<le> volume (snd (track_step fp s e)) \<and> volume (snd (track_step fp s e)) \<le> 1"
  by (cases e; simp add: track_step_Recv recv_track queue_block_def set_muted_def
      set_volume_def stop_def del: track_step.simps(1))

lemma track_run_volume:
  "0 \<le> volume s \<and> volume s \<le> 1 \<Longrightarrow>
   0 \<le> volume (track_run fp s evs) \<and> volume (track_run fp s evs) \<le> 1"
proof (induction evs arbitrary: s)
  case Nil
  then show ?case by (simp add: track_run_def)
next
  case (Cons e evs)
  from Cons.IH [OF track_step_volume [OF Cons.prems]] show ?case
    by (simp add: track_run_Cons)
qed

lemma recv_stereo_silence:
  "recv fp \<lparr> sample_rate = 48000, channels = 2, timestamp = t, samples_per_frame = 960,
       audio_queue = [], running = r, muted = False, volume = 1 \<rparr> =
     (Inr \<lparr> frame_format = ''s16'', frame_layout = ''stereo'', frame_samples = 960,
            frame_sample_rate = 48000, pts = t, plane = replicate 960 (replicate 2 0) \<rparr>,
      \<lparr> sample_rate = 48000, channels = 2, timestamp = t + 960, samples_per_frame = 960,
       audio_queue = [], running = r, muted = False, volume = 1 \<rparr>)"
  by (simp add: recv_def Let_def next_block_def np_zeros_def mute_volume_def to_int16_def
      nbytes_def plane_size_def layout_channels_def sum_list_replicate)

lemma recv_short_block:
  "recv fp \<lparr> sample_rate = 48000, channels = 2, timestamp = t, samples_per_frame = 960,
       audio_queue = [[[1, 1]]], running = r, muted = False, volume = 1 \<rparr> =
     (Inl ValueError,
      \<lparr> sample_rate = 48000, channels = 2, timestamp = t + 960, samples_per_frame = 960,
       audio_queue = [], running = r, muted = False, volume = 1 \<rparr>)"
  by (simp add: recv_def Let_def next_block_def mute_volume_def to_int16_def
      nbytes_def plane_size_def layout_channels_def)

lemma failing_pull_pts:
  "map pts (emitted fp (AudioCaptureTrack_init False 48000 2) failing_pull_events) = [0, 1920]"
  by (simp add: failing_pull_events_def AudioCaptureTrack_init_def recv_stereo_silence
      recv_short_block queue_block_def)

lemma full_scale_track_eq:
  "full_scale_track = \<lparr> sample_rate = 48000, channels = 2, timestamp = 0,
       samples_per_frame = 960, audio_queue = [replicate 960 [1, - 1]], running = True,
       muted = False, volume = 1 \<rparr>"
  by (simp add: full_scale_track_def track_run_def AudioCaptureTrack_init_def queue_block_def
      set_volume_def)

lemma loud_track_eq:
  "loud_track = \<lparr> sample_rate = 48000, channels = 2, timestamp = 0,
       samples_per_frame = 960, audio_queue = [replicate 960 [2, 2]], running = True,
       muted = False, volume = 1 \<rparr>"
  by (simp add: loud_track_def track_run_def AudioCaptureTrack_init_def queue_block_def)

lemma np_multiply_whole:
  "np_multiply fp 1 1 = 1" "np_multiply fp (- 1) 1 = - 1" "np_multiply fp 2 1 = 2"
  "np_multiply fp 1 32767 = 32767" "np_multiply fp (- 1) 32767 = - 32767"
  "np_multiply fp 2 32767 = 65534"
  by (simp_all add: np_multiply_def whole32_def)

lemma astype_int16_values:
  "astype_int16 fp 32767 = 32767" "astype_int16 fp (- 32767) = - 32767"
  "astype_int16 fp 65534 = - 2"
  by (simp_all add: astype_int16_def py_int_def)

section \<open>Audio track: the claims\<close>

text \<open>
  C4. In every run of events on one audio track (pulls, blocks arriving from the capture
  thread, failed reads, a failed capture, mute and volume changes, pulls on an empty
  queue and pulls that raise among them) the presentation timestamps of the emitted
  frames are strictly increasing. Each pull, whether it returns a frame or raises,
  advances the timestamp of the track by exactly the block size of 960 samples, and a
  frame it returns carries the timestamp the track had before the pull. On a mono or
  stereo track with a positive sample rate whose captured blocks all have 960 rows of
  that many channels no pull raises, and the timestamps are 0, 960, 1920, ...
\<close>

theorem pts_strictly_increasing:
  assumes "s0 = AudioCaptureTrack_init backend rate chans"
  shows "sorted_wrt (<) (map pts (emitted fp s0 evs))
       \<and> timestamp (track_run fp s0 evs) = 960 * int (length (filter (\<lambda>e. e = Recv) evs))
       \<and> (s = track_run fp s0 evs \<longrightarrow>
            timestamp (snd (recv fp s)) = timestamp s + 960
          \<and> (\<forall>f. fst (recv fp s) = Inr f \<longrightarrow> pts f = timestamp s))
       \<and> ((chans = 1 \<or> chans = 2) \<and> 0 < rate
            \<and> (\<forall>b \<in> set (captured_blocks evs). has_shape 960 chans b) \<longrightarrow>
          map pts (emitted fp s0 evs) =
            map (\<lambda>k. 960 * int k) [0..<length (filter (\<lambda>e. e = Recv) evs)])"
proof -
  have 1: "sorted_wrt (<) (map pts (emitted fp s0 evs))"
    using pts_emitted_increasing [of s0 fp evs] assms by simp
  have 2: "timestamp (track_run fp s0 evs) = 960 * int (length (filter (\<lambda>e. e = Recv) evs))"
    using track_run_timestamp [of fp s0 evs] assms by simp
  have 3: "timestamp (snd (recv fp s)) = timestamp s + 960
          \<and> (\<forall>f. fst (recv fp s) = Inr f \<longrightarrow> pts f = timestamp s)"
    if "s = track_run fp s0 evs"
    using that assms recv_frame(1) [of fp s] by (simp add: recv_track)
  have 4: "map pts (emitted fp s0 evs) =
            map (\<lambda>k. 960 * int k) [0..<length (filter (\<lambda>e. e = Recv) evs)]"
    if "(chans = 1 \<or> chans = 2) \<and> 0 < rate
            \<and> (\<forall>b \<in> set (captured_blocks evs). has_shape 960 chans b)"
  proof -
    have "all_shaped s0"
      using assms by (simp add: all_shaped_def)
    from pts_emitted_exact [OF this, of evs fp] that assms show ?thesis
      by simp
  qed
  from 1 2 3 4 show ?thesis by blast
qed

theorem pts_strictly_increasing_witness:
  "map pts (emitted exact_fp (AudioCaptureTrack_init False 48000 2) failing_pull_events) = [0, 1920]
   \<and> sorted_wrt (<)
        (map pts (emitted exact_fp (AudioCaptureTrack_init False 48000 2) failing_pull_events))
   \<and> timestamp (track_run exact_fp (AudioCaptureTrack_init False 48000 2) failing_pull_events) = 2880
   \<and> map pts (emitted exact_fp (AudioCaptureTrack_init False 48000 2) [Recv, Recv, Recv]) =
        [0, 960, 1920]"
proof -
  note a = pts_strictly_increasing [OF refl, where fp = exact_fp and backend = False
      and rate = 48000 and chans = 2 and evs = failing_pull_events
      and s = "track_run exact_fp (AudioCaptureTrack_init False 48000 2) failing_pull_events"]
  note b = pts_strictly_increasing [OF refl, where fp = exact_fp and backend = False
      and rate = 48000 and chans = 2 and evs = "[Recv, Recv, Recv]"
      and s = "track_run exact_fp (AudioCaptureTrack_init False 48000 2) [Recv, Recv, Recv]"]
  from a have 1: "sorted_wrt (<)
        (map pts (emitted exact_fp (AudioCaptureTrack_init False 48000 2) failing_pull_events))"
    by blast
  from a have "timestamp (track_run exact_fp (AudioCaptureTrack_init False 48000 2) failing_pull_events)
      = 960 * int (length (filter (\<lambda>e. e = Recv) failing_pull_events))"
    by blast
  then have 2: "timestamp (track_run exact_fp (AudioCaptureTrack_init False 48000 2) failing_pull_events)
      = 2880"
    by (simp add: failing_pull_events_def)
  have "(2 = (1 :: nat) \<or> 2 = (2 :: nat)) \<and> 0 < (48000 :: nat)
      \<and> (\<forall>b \<in> set (captured_blocks [Recv, Recv, Recv]). has_shape 960 2 b)"
    by simp
  with b have "map pts (emitted exact_fp (AudioCaptureTrack_init False 48000 2) [Recv, Recv, Recv]) =
      map (\<lambda>k. 960 * int k) [0..<length (filter (\<lambda>e. e = Recv) [Recv, Recv, Recv])]"
    by blast
  then have 3: "map pts (emitted exact_fp (AudioCaptureTrack_init False 48000 2) [Recv, Recv, Recv]) =
        [0, 960, 1920]"
    by (simp add: upt_rec)
  from 1 2 3 failing_pull_pts [of exact_fp] show ?thesis by simp
qed

text \<open>
  C6. In every state a mono or stereo track with a positive sample rate reaches, a pull
  on an empty queue returns a frame of 960 sample instants whose samples are all zero,
  one row per instant and one entry per channel of the track; a pull that finds a
  captured block of 960 rows of that many channels returns a frame of the same shape.
  This holds also on a track constructed without an audio backend.
\<close>

theorem silence_on_empty_queue:
  assumes "s = track_run fp (AudioCaptureTrack_init backend rate chans) evs"
    and "chans = 1 \<or> chans = 2" and "0 < rate"
  shows "(audio_queue s = [] \<longrightarrow>
            (\<exists>f. fst (recv fp s) = Inr f
                \<and> plane f = replicate 960 (replicate chans 0)
                \<and> has_shape 960 chans (plane f)
                \<and> frame_samples f = 960))
       \<and> (\<forall>b q. audio_queue s = b # q \<and> has_shape 960 chans b \<longrightarrow>
            (\<exists>f. fst (recv fp s) = Inr f
                \<and> has_shape 960 chans (plane f)
                \<and> frame_samples f = 960))"
proof -
  have spf: "samples_per_frame s = 960" and ch: "channels s = chans" and sr: "sample_rate s = rate"
    using assms(1) by simp_all
  have ok: "\<exists>f. fst (recv fp s) = Inr f \<and> has_shape 960 chans (plane f) \<and> frame_samples f = 960"
    if "has_shape 960 chans (next_block s)"
  proof -
    from recv_shaped [of s fp] that assms(2,3) obtain f where f: "fst (recv fp s) = Inr f"
      by (auto simp: spf ch sr)
    from recv_frame [OF f] that show ?thesis
      using f by (simp add: spf)
  qed
  have empty: "\<exists>f. fst (recv fp s) = Inr f
                \<and> plane f = replicate 960 (replicate chans 0)
                \<and> has_shape 960 chans (plane f)
                \<and> frame_samples f = 960" if q: "audio_queue s = []"
  proof -
    have nb: "next_block s = replicate 960 (replicate chans 0)"
      using next_block_silence [OF q] by (simp add: spf ch)
    then have "has_shape 960 chans (next_block s)"
      by (simp add: has_shape_def)
    from ok [OF this] obtain f where f: "fst (recv fp s) = Inr f"
      "has_shape 960 chans (plane f)" "frame_samples f = 960" by blast
    from recv_frame(3) [OF f(1)] have "plane f = replicate 960 (replicate chans 0)"
      by (simp add: nb silence_samples)
    with f show ?thesis by blast
  qed
  have full: "\<exists>f. fst (recv fp s) = Inr f \<and> has_shape 960 chans (plane f) \<and> frame_samples f = 960"
    if "audio_queue s = b # q \<and> has_shape 960 chans b" for b q
    using that by (intro ok) (simp add: next_block_def)
  from empty full show ?thesis by blast
qed

theorem silence_on_empty_queue_witness:
  "map_sum id plane
     (fst (recv exact_fp (track_run exact_fp (AudioCaptureTrack_init False 48000 2) [SetVolume 1, Recv])))
     = Inr (replicate 960 [0, 0])
   \<and> map_sum id (has_shape 960 2 \<circ> plane) (fst (recv exact_fp loud_track)) = Inr True"
proof -
  have q1: "audio_queue (track_run exact_fp (AudioCaptureTrack_init False 48000 2) [SetVolume 1, Recv]) = []"
    by (simp add: track_run_def track_step_Recv recv_track del: track_step.simps(1))
      (simp add: set_volume_def AudioCaptureTrack_init_def)
  have q2: "audio_queue loud_track = [replicate 960 [2, 2]]"
    by (simp add: loud_track_def track_run_def AudioCaptureTrack_init_def queue_block_def)
  have sh: "has_shape 960 2 (replicate 960 [2 :: real, 2])"
    by (simp add: has_shape_def)
  have two: "replicate 2 (0 :: 16 word) = [0, 0]"
    by (simp add: numeral_2_eq_2)
  from silence_on_empty_queue [OF refl, where fp = exact_fp and backend = False
      and rate = 48000 and chans = 2 and evs = "[SetVolume 1, Recv]"] q1
  have 1: "map_sum id plane
     (fst (recv exact_fp (track_run exact_fp (AudioCaptureTrack_init False 48000 2) [SetVolume 1, Recv])))
     = Inr (replicate 960 [0, 0])"
    by (auto simp: two)
  from silence_on_empty_queue [OF loud_track_def] q2 sh
  have 2: "map_sum id (has_shape 960 2 \<circ> plane) (fst (recv exact_fp loud_track)) = Inr True"
    by auto
  from 1 2 show ?thesis by simp
qed

text \<open>
  C7, as amended. If the track is muted, every sample of an emitted frame is zero.
  Otherwise each sample is multiplied by the volume factor and then by 32767, both in
  float32, and converted to a 16-bit integer by a truncating cast. The cast is exact for
  every scaled value of magnitude at most 32767: the emitted value is the truncated
  value, it equals the clamped value and lies within \<open>[-32767, 32767]\<close>. The conversion
  itself does not clamp. The volume factor is clamped: \<open>set_volume\<close> stores its argument
  clamped to \<open>[0, 1]\<close>, and in every state a track reaches the volume lies in \<open>[0, 1]\<close>.
\<close>

theorem mute_volume_quantization:
  "(muted s \<longrightarrow> (\<forall>f. fst (recv fp s) = Inr f \<longrightarrow> plane f = map (map (\<lambda>x. 0)) (next_block s)))
   \<and> (\<not> muted s \<longrightarrow>
        (\<forall>f. fst (recv fp s) = Inr f \<longrightarrow>
           plane f =
             map (map (\<lambda>x. astype_int16 fp (np_multiply fp (np_multiply fp x (volume s)) 32767)))
               (next_block s)))
   \<and> (\<bar>v\<bar> \<le> 32767 \<longrightarrow>
        sint (astype_int16 fp v) = py_int v
      \<and> sint (astype_int16 fp v) = spec_quantize v
      \<and> - 32767 \<le> sint (astype_int16 fp v)
      \<and> sint (astype_int16 fp v) \<le> 32767)
   \<and> volume (set_volume w s) = max 0 (min 1 w)
   \<and> 0 \<le> volume (set_volume w s) \<and> volume (set_volume w s) \<le> 1
   \<and> (s = track_run fp (AudioCaptureTrack_init backend rate chans) evs \<longrightarrow>
        0 \<le> volume s \<and> volume s \<le> 1)"
proof -
  have m: "plane f = map (map (\<lambda>x. 0)) (next_block s)"
    if "muted s" "fst (recv fp s) = Inr f" for f
    using recv_frame(3) [OF that(2)] that(1)
    by (simp add: mute_volume_def to_int16_def np_zeros_like_def)
  have u: "plane f =
             map (map (\<lambda>x. astype_int16 fp (np_multiply fp (np_multiply fp x (volume s)) 32767)))
               (next_block s)"
    if "\<not> muted s" "fst (recv fp s) = Inr f" for f
    using recv_frame(3) [OF that(2)] that(1)
    by (simp add: mute_volume_def to_int16_def)
  have c: "sint (astype_int16 fp v) = py_int v
      \<and> sint (astype_int16 fp v) = spec_quantize v
      \<and> - 32767 \<le> sint (astype_int16 fp v)
      \<and> sint (astype_int16 fp v) \<le> 32767" if "\<bar>v\<bar> \<le> 32767"
    using astype_int16_in_range(1) [OF that, where fp = fp] astype_int16_in_range(2,3) [OF that]
    by (simp add: abs_le_iff)
  have w: "volume (set_volume w s) = max 0 (min 1 w)
      \<and> 0 \<le> volume (set_volume w s) \<and> volume (set_volume w s) \<le> 1"
    by (simp add: set_volume_def)
  have r: "0 \<le> volume s \<and> volume s \<le> 1"
    if "s = track_run fp (AudioCaptureTrack_init backend rate chans) evs"
    unfolding that by (rule track_run_volume) (simp add: AudioCaptureTrack_init_def)
  from m u c w r show ?thesis by blast
qed

theorem mute_volume_quantization_witness:
  "volume full_scale_track = 1
   \<and> map_sum id plane (fst (recv exact_fp full_scale_track)) = Inr (replicate 960 [32767, - 32767])
   \<and> map_sum id plane (fst (recv exact_fp (set_muted True full_scale_track))) =
       Inr (replicate 960 [0, 0])
   \<and> sint (astype_int16 exact_fp (- 32767)) = - 32767"
proof -
  note a = mute_volume_quantization [where s = full_scale_track and fp = exact_fp
      and v = "- 32767" and w = 4 and backend = True and rate = 48000 and chans = 2
      and evs = "[SetVolume 4, Captured (replicate 960 [1, - 1])]"]
  note b = mute_volume_quantization [where s = "set_muted True full_scale_track"
      and fp = exact_fp and v = 0 and w = 4 and backend = True and rate = 48000 and chans = 2
      and evs = "[]"]
  have v: "volume full_scale_track = 1"
    by (simp add: full_scale_track_eq)
  have r1: "\<exists>f. fst (recv exact_fp full_scale_track) = Inr f"
    by (rule recv_shaped) (simp_all add: full_scale_track_eq next_block_def has_shape_def)
  have r2: "\<exists>f. fst (recv exact_fp (set_muted True full_scale_track)) = Inr f"
    by (rule recv_shaped)
      (simp_all add: full_scale_track_eq set_muted_def next_block_def has_shape_def)
  from a r1 have 1: "map_sum id plane (fst (recv exact_fp full_scale_track)) =
      Inr (replicate 960 [32767, - 32767])"
    by (auto simp: full_scale_track_eq next_block_def np_multiply_whole astype_int16_values)
  from b r2 have 2: "map_sum id plane (fst (recv exact_fp (set_muted True full_scale_track))) =
       Inr (replicate 960 [0, 0])"
    by (auto simp: full_scale_track_eq set_muted_def next_block_def)
  from a have 3: "sint (astype_int16 exact_fp (- 32767)) = - 32767"
    by (simp add: py_int_def)
  from v 1 2 3 show ?thesis by simp
qed

text \<open>
  C7 as stated fails: the quantization does not clamp. On a stereo track at volume 1,
  a queued block of samples 2.0 is emitted with the value -2 in every sample, where
  clamping to the 16-bit range would give 32767.
\<close>

theorem quantization_wraps_counterexample:
  "map_sum id (map (map sint) \<circ> plane) (fst (recv exact_fp loud_track)) = Inr (replicate 960 [- 2, - 2])
   \<and> spec_samples exact_fp loud_track = replicate 960 [32767, 32767]"
proof -
  have q: "spec_quantize 65534 = 32767"
    by (simp add: spec_quantize_def py_int_def)
  have "\<exists>f. fst (recv exact_fp loud_track) = Inr f"
    by (rule recv_shaped) (simp_all add: loud_track_eq next_block_def has_shape_def)
  then obtain f where f: "fst (recv exact_fp loud_track) = Inr f" by blast
  from recv_frame(3) [OF f] have "plane f = replicate 960 [- 2, - 2]"
    by (simp add: loud_track_eq next_block_def mute_volume_def to_int16_def
        np_multiply_whole astype_int16_values)
  with f have 1: "map_sum id (map (map sint) \<circ> plane) (fst (recv exact_fp loud_track)) =
      Inr (replicate 960 [- 2, - 2])"
    by simp
  have 2: "spec_samples exact_fp loud_track = replicate 960 [32767, 32767]"
    by (simp add: spec_samples_def loud_track_eq next_block_def np_multiply_whole q)
  from 1 2 show ?thesis by simp
qed

section \<open>Peer connections: answers in the wrong state\<close>

lemma handle_answer_wrong_state:
  assumes "signalingState pc \<noteq> HaveLocalOffer"
    and "answer_sdp ''sdp'' = Some s" and "answer_sdp ''type'' = Some ''answer''"
  shows "handle_answer m pc answer_sdp = (Inl InvalidStateError, m)"
  using assms by (simp add: handle_answer_def setRemoteDescription_def)

lemma handle_answer_manager:
  "snd (handle_answer m pc answer_sdp) = m"
  "fst (handle_answer m pc answer_sdp) = fst (handle_answer m' pc answer_sdp)"
  by (simp_all add: handle_answer_def split: option.splits)

text \<open>
  C9, as amended. Applying a well-formed remote answer to a connection that is closed,
  or in any other state than have-local-offer, fails with \<open>InvalidStateError\<close>: the call
  returns the exception and no changed connection, and the manager is as before; the
  signaling endpoint reports the exception and leaves the server as it was. Whether
  the connection is known to the manager plays no part in \<open>handle_answer\<close>, whose
  result is the same for every manager. An answer for a connection id the endpoint
  does not know is rejected there with the error \<open>Invalid pc_id\<close>, before
  \<open>handle_answer\<close> is called and with nothing changed.
\<close>

theorem accept_answer_invalid_state:
  assumes "answer_sdp ''sdp'' = Some s" and "answer_sdp ''type'' = Some ''answer''"
  shows "(signalingState pc = Closed \<or> signalingState pc \<noteq> HaveLocalOffer \<longrightarrow>
            handle_answer m pc answer_sdp = (Inl InvalidStateError, m))
       \<and> (active_pcs srv pc_id = Some pc
            \<and> (signalingState pc = Closed \<or> signalingState pc \<noteq> HaveLocalOffer) \<longrightarrow>
            receive_webrtc_answer srv
              \<lparr> request_pc_id = Some pc_id, request_answer = Some answer_sdp \<rparr>
              = (ErrorException InvalidStateError, srv))
       \<and> (active_pcs srv pc_id = None \<longrightarrow>
            receive_webrtc_answer srv \<lparr> request_pc_id = Some pc_id, request_answer = a \<rparr>
              = (ErrorInvalidPcId, srv))
       \<and> fst (handle_answer m pc answer_sdp) = fst (handle_answer m' pc answer_sdp)
       \<and> snd (handle_answer m pc answer_sdp) = m"
proof -
  have w: "handle_answer m pc answer_sdp = (Inl InvalidStateError, m)"
    if "signalingState pc = Closed \<or> signalingState pc \<noteq> HaveLocalOffer" for m
    using that handle_answer_wrong_state [OF _ assms, where pc = pc and m = m] by auto
  have e: "receive_webrtc_answer srv
              \<lparr> request_pc_id = Some pc_id, request_answer = Some answer_sdp \<rparr>
              = (ErrorException InvalidStateError, srv)"
    if "active_pcs srv pc_id = Some pc
            \<and> (signalingState pc = Closed \<or> signalingState pc \<noteq> HaveLocalOffer)"
    using that w [of "webrtc_manager srv"] by (simp add: receive_webrtc_answer_def)
  have u: "receive_webrtc_answer srv \<lparr> request_pc_id = Some pc_id, request_answer = a \<rparr>
              = (ErrorInvalidPcId, srv)"
    if "active_pcs srv pc_id = None"
    using that by (simp add: receive_webrtc_answer_def)
  from w [of m] e u handle_answer_manager(1) [where m = m and pc = pc and answer_sdp = answer_sdp]
    handle_answer_manager(2) [where m = m and pc = pc and answer_sdp = answer_sdp and m' = m']
  show ?thesis
    by blast
qed

theorem accept_answer_invalid_state_witness:
  "handle_answer (WebRTCManager_init True)
     \<lparr> object_id = 42, signalingState = Closed, remoteDescription = None \<rparr> some_answer =
     (Inl InvalidStateError, WebRTCManager_init True)
   \<and> receive_webrtc_answer server_with_closed
        \<lparr> request_pc_id = Some ''42'', request_answer = Some some_answer \<rparr> =
       (ErrorException InvalidStateError, server_with_closed)
   \<and> receive_webrtc_answer server_with_closed
        \<lparr> request_pc_id = Some ''43'', request_answer = Some some_answer \<rparr> =
       (ErrorInvalidPcId, server_with_closed)"
proof -
  have a: "some_answer ''sdp'' = Some ''v=0''" "some_answer ''type'' = Some ''answer''"
    by (simp_all add: some_answer_def)
  note t = accept_answer_invalid_state [OF a, where m = "WebRTCManager_init True"
      and m' = "WebRTCManager_init True" and srv = server_with_closed
      and pc = "\<lparr> object_id = 42, signalingState = Closed, remoteDescription = None \<rparr>"]
  from t [where pc_id = "''42''" and a = None]
  have 1: "handle_answer (WebRTCManager_init True)
     \<lparr> object_id = 42, signalingState = Closed, remoteDescription = None \<rparr> some_answer =
     (Inl InvalidStateError, WebRTCManager_init True)"
    and 2: "receive_webrtc_answer server_with_closed
        \<lparr> request_pc_id = Some ''42'', request_answer = Some some_answer \<rparr> =
       (ErrorException InvalidStateError, server_with_closed)"
    by (simp_all add: server_with_closed_def)
  from t [where pc_id = "''43''" and a = "Some some_answer"]
  have 3: "receive_webrtc_answer server_with_closed
        \<lparr> request_pc_id = Some ''43'', request_answer = Some some_answer \<rparr> =
       (ErrorInvalidPcId, server_with_closed)"
    by (simp add: server_with_closed_def)
  from 1 2 3 show ?thesis by simp
qed

text \<open>
  C9 as stated fails for a connection unknown to the manager: \<open>handle_answer\<close> given a
  connection in have-local-offer that is not among the manager's live connections
  applies the answer and raises nothing.
\<close>

theorem unknown_connection_counterexample:
  "object_id unregistered_connection \<notin> peer_connections (WebRTCManager_init True)
   \<and> signalingState unregistered_connection = HaveLocalOffer
   \<and> handle_answer (WebRTCManager_init True) unregistered_connection some_answer =
       (Inr \<lparr> object_id = 7, signalingState = Stable,
              remoteDescription = Some \<lparr> sdp_text = ''v=0'', sdp_type = ''answer'' \<rparr> \<rparr>,
        WebRTCManager_init True)"
  by (simp add: unregistered_connection_def WebRTCManager_init_def handle_answer_def
      setRemoteDescription_def some_answer_def)

end
